theory Spec2Isabelle
  imports Main "HOL-Library.Char_ord" "HOL-Library.List_Lexorder"
begin

section \<open>The converter of src/index.js (class PPTXInHTMLOut)\<close>

text \<open>
  The class is embedded with explicit state passing. Every \<^verbatim>\<open>await\<close> of the source is
  sequential, so an asynchronous method is a function from the state before the call to
  its result and the state after it. A \<^verbatim>\<open>throw\<close> is a value \<open>Inl e\<close>; a
  \<^verbatim>\<open>try/catch\<close> that returns \<^verbatim>\<open>null\<close> is the value \<open>None\<close>. Console output is not
  part of any result and is left out. Strings and buffers are lists of \<open>char\<close>.
\<close>

subsection \<open>String operations of the JavaScript runtime\<close>

abbreviation nl :: string where
  "nl \<equiv> [CHR 0x0A]"

text \<open>Joins the lines of a template literal with the line breaks between them.\<close>

fun join_lines :: "string list \<Rightarrow> string" where
  "join_lines [] = []"
| "join_lines [l] = l"
| "join_lines (l # ls) = l @ nl @ join_lines ls"

text \<open>\<^verbatim>\<open>s.startsWith(p)\<close> and \<^verbatim>\<open>s.endsWith(p)\<close>.\<close>

definition startsWith :: "string \<Rightarrow> string \<Rightarrow> bool" where
  "startsWith s p = (take (length p) s = p)"

definition endsWith :: "string \<Rightarrow> string \<Rightarrow> bool" where
  "endsWith s p = (length p \<le> length s \<and> drop (length s - length p) s = p)"

text \<open>\<^verbatim>\<open>p.split('/').pop()\<close>: what follows the last slash (all of \<open>p\<close> when it has none).\<close>

definition last_segment :: "string \<Rightarrow> string" where
  "last_segment p = rev (takeWhile (\<lambda>ch. ch \<noteq> CHR ''/'') (rev p))"

text \<open>The character classes \<^verbatim>\<open>\d\<close> (\<^verbatim>\<open>[0-9]\<close>), \<^verbatim>\<open>[a-z]\<close> and \<^verbatim>\<open>[A-Z]\<close>.\<close>

definition is_digit :: "char \<Rightarrow> bool" where
  "is_digit ch = (ch \<in> set ''0123456789'')"

definition lower_letters :: string where
  "lower_letters = ''abcdefghijklmnopqrstuvwxyz''"

definition upper_letters :: string where
  "upper_letters = ''ABCDEFGHIJKLMNOPQRSTUVWXYZ''"

definition is_lower :: "char \<Rightarrow> bool" where
  "is_lower ch = (ch \<in> set lower_letters)"

text \<open>
  The regular expression \<^verbatim>\<open>slide(\d+)\.xml\<close> tried at the start of a string. The
  digits are matched greedily and the next character must be the dot, so the group is the
  maximal run of digits. The result is the captured group.
\<close>

definition slide_digits_here :: "string \<Rightarrow> string option" where
  "slide_digits_here s =
     (if startsWith s ''slide'' then
        (let ds = takeWhile is_digit (drop 5 s) in
         if ds = [] then None
         else if startsWith (dropWhile is_digit (drop 5 s)) ''.xml'' then Some ds
         else None)
      else None)"

text \<open>\<^verbatim>\<open>s.match(/slide(\d+)\.xml/)\<close>: the leftmost position where the expression matches.\<close>

fun match_slide_number :: "string \<Rightarrow> string option" where
  "match_slide_number [] = None"
| "match_slide_number (ch # s) =
     (case slide_digits_here (ch # s) of
        Some ds \<Rightarrow> Some ds
      | None \<Rightarrow> match_slide_number s)"

text \<open>\<^verbatim>\<open>f.match(/ppt\/slides\/slide[0-9]+\.xml/)\<close> as a truth value.\<close>

definition slide_path_here :: "string \<Rightarrow> bool" where
  "slide_path_here s =
     (startsWith s ''ppt/slides/'' \<and> slide_digits_here (drop 11 s) \<noteq> None)"

fun matches_slide_path :: "string \<Rightarrow> bool" where
  "matches_slide_path [] = False"
| "matches_slide_path (ch # s) = (slide_path_here (ch # s) \<or> matches_slide_path s)"

subsection \<open>The collaborators' data\<close>

text \<open>
  What \<^verbatim>\<open>parseStringPromise\<close> (xml2js, default options) returns for an element: a string
  when the element has neither attributes nor child elements, otherwise an object with the
  attributes under \<^verbatim>\<open>$\<close>, the character content under \<^verbatim>\<open>_\<close> and, under each child name,
  the array of the children of that name. The document is \<^verbatim>\<open>null\<close> or an object with
  the root's name as its only key.
\<close>

datatype xnode =
    XText string
  | XElem "(string \<times> string) list" string "(string \<times> xnode list) list"

datatype xdoc = XNull | XRoot string xnode

text \<open>\<^verbatim>\<open>node[key]\<close> for the name of a child element; \<open>None\<close> is \<^verbatim>\<open>undefined\<close>.\<close>

fun child :: "xnode \<Rightarrow> string \<Rightarrow> xnode list option" where
  "child (XText t) key = None"
| "child (XElem attrs chars children) key = map_of children key"

text \<open>\<^verbatim>\<open>node.$?.[key]\<close>: an attribute's value.\<close>

fun attr_of :: "xnode \<Rightarrow> string \<Rightarrow> string option" where
  "attr_of (XText t) key = None"
| "attr_of (XElem attrs chars children) key = map_of attrs key"

text \<open>\<^verbatim>\<open>v?.[0]\<close> on an array or \<^verbatim>\<open>undefined\<close>.\<close>

fun first :: "'a list option \<Rightarrow> 'a option" where
  "first None = None"
| "first (Some []) = None"
| "first (Some (x # xs)) = Some x"

text \<open>
  The array a loop runs over: \<^verbatim>\<open>node[key] || []\<close>, or \<^verbatim>\<open>node[key]\<close> under the \<^verbatim>\<open>if\<close>
  that guards its loop. No array, no iteration.
\<close>

definition elements :: "xnode \<Rightarrow> string \<Rightarrow> xnode list" where
  "elements node key = (case child node key of None \<Rightarrow> [] | Some xs \<Rightarrow> xs)"

text \<open>Truthiness: of the values above only the empty string is falsy.\<close>

fun truthy :: "xnode \<Rightarrow> bool" where
  "truthy (XText t) = (t \<noteq> [])"
| "truthy (XElem attrs chars children) = True"

text \<open>
  The archive as JSZip presents it: the entries by name, in the order of
  \<^verbatim>\<open>Object.keys(zip.files)\<close>, each with the content that \<^verbatim>\<open>async\<close> yields for it (reading
  an entry of a loaded archive is taken to succeed). A directory entry's name ends with a
  slash, and \<^verbatim>\<open>zip.file(name)\<close> returns file entries only.
\<close>

type_synonym zipfile = "(string \<times> string) list"

definition zip_names :: "zipfile \<Rightarrow> string list" where
  "zip_names z = map fst z"

definition zip_file :: "zipfile \<Rightarrow> string \<Rightarrow> string option" where
  "zip_file z name = (if endsWith name ''/'' then None else map_of z name)"

text \<open>
  One recognition attempt on an image, as the OCR collaborator (tesseract.js) decides it.
  The text is recognised, or one of the two calls fails. A call fails in one of two ways.
  Its promise is rejected and nothing else happens, as when the failure is on the calling
  side: the \<^verbatim>\<open>await\<close> throws inside the \<^verbatim>\<open>try\<close> block. Or the worker reports the failure:
  the library then rejects the promise and, since \<^verbatim>\<open>createWorker()\<close> is called without an
  \<^verbatim>\<open>errorHandler\<close> (line 364), throws from the worker's message handler. That exception
  is outside every \<^verbatim>\<open>try\<close> block of the converter and ends the process before the
  rejection is handled (for a failing \<^verbatim>\<open>createWorker\<close> the promise may not settle at all).
\<close>

datatype ocr_outcome =
    Recognized string
  | RecognizeRejected
  | RecognizeUncaught
  | AcquireRejected
  | AcquireUncaught

text \<open>
  The collaborators. \<open>loadAsync\<close> is \<^verbatim>\<open>JSZip.loadAsync\<close> and \<open>parseStringPromise\<close> is
  xml2js's; \<open>None\<close> is a rejected promise. \<open>objectToString\<close> is what a template literal
  makes of a parsed element object: its string when the object has a prototype, \<open>None\<close>
  (a TypeError) when xml2js builds its objects without one.
\<close>

record collab =
  loadAsync :: "string \<Rightarrow> zipfile option"
  parseStringPromise :: "string \<Rightarrow> xdoc option"
  recognition :: "string \<Rightarrow> ocr_outcome"
  objectToString :: "string option"

subsection \<open>Recognition contexts\<close>

text \<open>
  The OCR workers are the one resource the converter acquires. The world counts the
  workers created so far, lists those not yet terminated, and logs each call.
\<close>

datatype ocr_event = Created nat | Recognizing nat string | Terminated nat

record world =
  created :: nat
  live :: "nat list"
  events :: "ocr_event list"

definition createWorker :: "world \<Rightarrow> nat \<times> world" where
  "createWorker w =
     (created w,
      w\<lparr>created := Suc (created w), live := created w # live w,
        events := events w @ [Created (created w)]\<rparr>)"

definition recognize :: "nat \<Rightarrow> string \<Rightarrow> world \<Rightarrow> world" where
  "recognize k img w = w\<lparr>events := events w @ [Recognizing k img]\<rparr>"

definition terminate :: "nat \<Rightarrow> world \<Rightarrow> world" where
  "terminate k w = w\<lparr>live := removeAll k (live w), events := events w @ [Terminated k]\<rparr>"

text \<open>
  What a call may end with instead of a result: \<open>Uncaught\<close> is the exception thrown from
  the worker's message handler. No \<^verbatim>\<open>catch\<close> of the converter sees it, and the conversion
  ends with it.
\<close>

datatype js_error = LoadFailure | TypeError | Error string | Uncaught

text \<open>
  \<^verbatim>\<open>processImage\<close> (lines 361-375). When \<^verbatim>\<open>createWorker\<close> rejects, \<^verbatim>\<open>worker\<close> is still
  \<^verbatim>\<open>null\<close> in the \<^verbatim>\<open>finally\<close> block and nothing is terminated. When \<^verbatim>\<open>recognize\<close>
  resolves or rejects, the \<^verbatim>\<open>finally\<close> block terminates the worker. When the worker
  reports a failure, the process ends in the message handler: neither \<^verbatim>\<open>catch\<close> nor
  \<^verbatim>\<open>finally\<close> runs, and the worker that the library has started is never terminated.
  The result is the recognised text (\<^verbatim>\<open>{ text }\<close>) or \<open>None\<close> for \<^verbatim>\<open>null\<close>.
  \<^verbatim>\<open>worker.terminate()\<close> itself is taken to resolve.
\<close>

definition processImage ::
  "collab \<Rightarrow> world \<Rightarrow> string \<Rightarrow> (js_error + string option) \<times> world" where
  "processImage c w imageBuffer =
     (case recognition c imageBuffer of
        Recognized t \<Rightarrow>
          (case createWorker w of
             (worker, w1) \<Rightarrow>
               (Inr (Some t), terminate worker (recognize worker imageBuffer w1)))
      | RecognizeRejected \<Rightarrow>
          (case createWorker w of
             (worker, w1) \<Rightarrow> (Inr None, terminate worker (recognize worker imageBuffer w1)))
      | RecognizeUncaught \<Rightarrow>
          (case createWorker w of
             (worker, w1) \<Rightarrow> (Inl Uncaught, recognize worker imageBuffer w1))
      | AcquireRejected \<Rightarrow> (Inr None, w)
      | AcquireUncaught \<Rightarrow>
          (case createWorker w of
             (worker, w1) \<Rightarrow> (Inl Uncaught, w1)))"

text \<open>The workers alive are among those created.\<close>

definition world_ok :: "world \<Rightarrow> bool" where
  "world_ok w = list_all (\<lambda>k. k < created w) (live w)"

subsection \<open>The converter's state\<close>

record slide =
  slide_file :: string
  content :: xdoc

text \<open>
  The fields of the instance that the methods below read or write. \<open>zipf\<close> is
  \<^verbatim>\<open>this.zip\<close> (\<^verbatim>\<open>null\<close> until \<^verbatim>\<open>initialize\<close>), \<open>slideFiles\<close> is \<^verbatim>\<open>undefined\<close>
  until \<^verbatim>\<open>validatePPTX\<close> sets it.
\<close>

record converter =
  pptxBuffer :: string
  zipf :: "zipfile option"
  slides :: "slide list"
  slideFiles :: "string list option"

definition PPTXInHTMLOut :: "string \<Rightarrow> converter" where
  "PPTXInHTMLOut buffer =
     \<lparr>pptxBuffer = buffer, zipf = None, slides = [], slideFiles = None\<rparr>"

text \<open>
  The argument a caller may pass to \<^verbatim>\<open>toHTML\<close>, as the README documents it.
\<close>

record options =
  includeStyles :: bool

subsection \<open>Loading and validation (lines 30-77)\<close>

definition initialize :: "collab \<Rightarrow> converter \<Rightarrow> js_error + converter" where
  "initialize c s =
     (case loadAsync c (pptxBuffer s) of
        None \<Rightarrow> Inl LoadFailure
      | Some z \<Rightarrow> Inr (s\<lparr>zipf := Some z\<rparr>))"

definition requiredFiles :: "string list" where
  "requiredFiles = [''ppt/presentation.xml'', ''_rels/.rels'']"

definition validatePPTX :: "converter \<Rightarrow> js_error + converter" where
  "validatePPTX s =
     (case zipf s of
        None \<Rightarrow> Inl TypeError
      | Some z \<Rightarrow>
          (case List.find (\<lambda>f. f \<notin> set (zip_names z)) requiredFiles of
             Some f \<Rightarrow> Inl (Error (''Invalid PPTX file: missing '' @ f))
           | None \<Rightarrow>
               (if filter matches_slide_path (zip_names z) = []
                then Inl (Error ''Invalid PPTX file: no slides found'')
                else Inr (s\<lparr>slideFiles :=
                            Some (filter matches_slide_path (zip_names z))\<rparr>))))"

text \<open>
  \<^verbatim>\<open>load\<close>. Its \<^verbatim>\<open>Buffer.isBuffer\<close> test cannot fail here: \<open>pptxBuffer\<close> is a
  byte string by its type.
\<close>

definition load :: "collab \<Rightarrow> converter \<Rightarrow> js_error + converter" where
  "load c s =
     (case initialize c s of
        Inl e \<Rightarrow> Inl e
      | Inr s1 \<Rightarrow> validatePPTX s1)"

subsection \<open>Slide parts (lines 132-166)\<close>

text \<open>
  The loop of \<^verbatim>\<open>parseSlides\<close>: a slide whose entry cannot be read or parsed is logged
  and left out.
\<close>

fun parse_loop :: "collab \<Rightarrow> zipfile \<Rightarrow> string list \<Rightarrow> slide list \<Rightarrow> slide list" where
  "parse_loop c z [] acc = acc"
| "parse_loop c z (slideFile # rest) acc =
     (case zip_file z slideFile of
        None \<Rightarrow> parse_loop c z rest acc
      | Some slideContent \<Rightarrow>
          (case parseStringPromise c slideContent of
             None \<Rightarrow> parse_loop c z rest acc
           | Some slideXml \<Rightarrow>
               parse_loop c z rest (acc @ [\<lparr>slide_file = slideFile, content = slideXml\<rparr>])))"

definition is_slide_name :: "string \<Rightarrow> bool" where
  "is_slide_name name = (startsWith name ''ppt/slides/slide'' \<and> endsWith name ''.xml'')"

text \<open>
  \<^verbatim>\<open>parseSlides\<close>. \<^verbatim>\<open>Array.prototype.sort\<close> without a comparator orders strings by
  their code units, which for \<open>char\<close> lists is the lexicographic order of the library.
\<close>

definition parseSlides :: "collab \<Rightarrow> converter \<Rightarrow> js_error + slide list \<times> converter" where
  "parseSlides c s =
     (case zipf s of
        None \<Rightarrow> Inl TypeError
      | Some z \<Rightarrow>
          (let parsed = parse_loop c z (sort (filter is_slide_name (zip_names z))) []
           in Inr (parsed, s\<lparr>slides := parsed\<rparr>)))"

subsection \<open>Relationships and media (lines 293-359)\<close>

fun rels_loop :: "(string \<rightharpoonup> string) \<Rightarrow> xnode list \<Rightarrow> (string \<rightharpoonup> string)" where
  "rels_loop rels [] = rels"
| "rels_loop rels (rel # rest) =
     (case attr_of rel ''Id'' of
        None \<Rightarrow> rels_loop rels rest
      | Some ident \<Rightarrow>
          (case attr_of rel ''Target'' of
             None \<Rightarrow> rels_loop rels rest
           | Some target \<Rightarrow>
               (if ident = [] then rels_loop rels rest
                else if target = [] then rels_loop rels rest
                else rels_loop (rels(ident \<mapsto> target)) rest)))"

text \<open>\<^verbatim>\<open>relsXml?.['Relationships']?.['Relationship'] || []\<close>.\<close>

fun relationships_of :: "xdoc \<Rightarrow> xnode list" where
  "relationships_of XNull = []"
| "relationships_of (XRoot name node) =
     (if name = ''Relationships''
      then (case child node ''Relationship'' of None \<Rightarrow> [] | Some rels \<Rightarrow> rels)
      else [])"

text \<open>
  \<^verbatim>\<open>getSlideRels\<close>. Every failure inside its \<^verbatim>\<open>try\<close> block (no match of the slide
  number, no archive, a relationship file that does not parse) is caught and gives
  \<^verbatim>\<open>null\<close>, as a missing relationship file does. The table maps an id to its target;
  \<^verbatim>\<open>getImageData\<close> reads nothing else of an entry, and a key that the object only
  inherits has no \<^verbatim>\<open>Target\<close>, which it treats as a missing relationship.
\<close>

definition getSlideRels :: "collab \<Rightarrow> converter \<Rightarrow> string \<Rightarrow> (string \<rightharpoonup> string) option" where
  "getSlideRels c s slideFile =
     (case match_slide_number slideFile of
        None \<Rightarrow> None
      | Some slideNumber \<Rightarrow>
          (case zipf s of
             None \<Rightarrow> None
           | Some z \<Rightarrow>
               (case zip_file z (''ppt/slides/_rels/slide'' @ slideNumber @ ''.xml.rels'') of
                  None \<Rightarrow> None
                | Some relsContent \<Rightarrow>
                    (case parseStringPromise c relsContent of
                       None \<Rightarrow> None
                     | Some relsXml \<Rightarrow>
                         Some (rels_loop Map.empty (relationships_of relsXml))))))"

definition getImageData :: "collab \<Rightarrow> converter \<Rightarrow> string \<Rightarrow> string \<Rightarrow> string option" where
  "getImageData c s slideFile rId =
     (case getSlideRels c s slideFile of
        None \<Rightarrow> None
      | Some rels \<Rightarrow>
          (case rels rId of
             None \<Rightarrow> None
           | Some imagePath \<Rightarrow>
               (case zipf s of
                  None \<Rightarrow> None
                | Some z \<Rightarrow> zip_file z (''ppt/media/'' @ last_segment imagePath))))"

subsection \<open>Rendering a slide (lines 168-241)\<close>

text \<open>
  \<^verbatim>\<open>run['a:t']?.[0] || ''\<close> as the template literal prints it. An \<^verbatim>\<open>a:t\<close> element with
  attributes is an object, which the template converts with \<open>objectToString\<close>.
\<close>

definition run_text :: "collab \<Rightarrow> xnode \<Rightarrow> js_error + string" where
  "run_text c run =
     (case first (child run ''a:t'') of
        None \<Rightarrow> Inr []
      | Some (XText t) \<Rightarrow> Inr t
      | Some (XElem attrs chars children) \<Rightarrow>
          (case objectToString c of
             None \<Rightarrow> Inl TypeError
           | Some str \<Rightarrow> Inr str))"

text \<open>The three nested loops over shapes, paragraphs and runs; \<open>html\<close> is the accumulator.\<close>

fun runs_loop :: "collab \<Rightarrow> string \<Rightarrow> xnode list \<Rightarrow> js_error + string" where
  \<open>runs_loop c html [] = Inr html\<close>
| \<open>runs_loop c html (run # rest) =
     (case run_text c run of
        Inl e \<Rightarrow> Inl e
      | Inr t \<Rightarrow> runs_loop c (html @ ''<span>'' @ t @ ''</span>'') rest)\<close>

fun paragraphs_loop :: "collab \<Rightarrow> string \<Rightarrow> xnode list \<Rightarrow> js_error + string" where
  \<open>paragraphs_loop c html [] = Inr html\<close>
| \<open>paragraphs_loop c html (paragraph # rest) =
     (case runs_loop c (html @ ''<p>'') (elements paragraph ''a:r'') of
        Inl e \<Rightarrow> Inl e
      | Inr html1 \<Rightarrow> paragraphs_loop c (html1 @ ''</p>'') rest)\<close>

text \<open>\<^verbatim>\<open>shape['p:txBody']?.[0]\<close> when it is truthy.\<close>

definition txBody_of :: "xnode \<Rightarrow> xnode option" where
  "txBody_of shape =
     (case first (child shape ''p:txBody'') of
        None \<Rightarrow> None
      | Some txBody \<Rightarrow> if truthy txBody then Some txBody else None)"

fun shapes_loop :: "collab \<Rightarrow> string \<Rightarrow> xnode list \<Rightarrow> js_error + string" where
  \<open>shapes_loop c html [] = Inr html\<close>
| \<open>shapes_loop c html (shape # rest) =
     (case txBody_of shape of
        None \<Rightarrow> shapes_loop c html rest
      | Some txBody \<Rightarrow>
          (case paragraphs_loop c (html @ ''<div class="shape">'') (elements txBody ''a:p'') of
             Inl e \<Rightarrow> Inl e
           | Inr html1 \<Rightarrow> shapes_loop c (html1 @ ''</div>'') rest))\<close>

text \<open>\<^verbatim>\<open>pic['p:blipFill']?.[0]?.['a:blip']?.[0]?.$?.['r:embed']\<close>.\<close>

definition embed_id :: "xnode \<Rightarrow> string option" where
  "embed_id pic =
     (case first (child pic ''p:blipFill'') of
        None \<Rightarrow> None
      | Some blipFill \<Rightarrow>
          (case first (child blipFill ''a:blip'') of
             None \<Rightarrow> None
           | Some blip \<Rightarrow> attr_of blip ''r:embed''))"

text \<open>The picture fragment of lines 230-232, with the line breaks of the template.\<close>

definition picture_html :: "string \<Rightarrow> string" where
  \<open>picture_html text =
     join_lines
       [''<div class="picture">'',
        ''                <p class="ocr-text">'' @ text @ ''</p>'',
        ''              </div>'']\<close>

text \<open>
  The body of the loop over pictures: the accumulated html and the world after it, or the
  uncaught exception that ended the conversion.
\<close>

definition convertPicture ::
  "collab \<Rightarrow> converter \<Rightarrow> string \<Rightarrow> xnode \<Rightarrow> string \<times> world \<Rightarrow>
   (js_error + string) \<times> world" where
  "convertPicture c s slideFile pic hw =
     (case hw of (html, w) \<Rightarrow>
        (case embed_id pic of
           None \<Rightarrow> (Inr html, w)
         | Some rId \<Rightarrow>
             (if rId = [] then (Inr html, w)
              else
                (case getImageData c s slideFile rId of
                   None \<Rightarrow> (Inr html, w)
                 | Some imageData \<Rightarrow>
                     (case processImage c w imageData of
                        (Inl e, w1) \<Rightarrow> (Inl e, w1)
                      | (Inr None, w1) \<Rightarrow> (Inr html, w1)
                      | (Inr (Some text), w1) \<Rightarrow>
                          (if text = [] then (Inr html, w1)
                           else (Inr (html @ picture_html text), w1)))))))"

fun pictures_loop ::
  "collab \<Rightarrow> converter \<Rightarrow> string \<Rightarrow> xnode list \<Rightarrow> string \<times> world \<Rightarrow>
   (js_error + string) \<times> world" where
  "pictures_loop c s slideFile [] hw = (case hw of (html, w) \<Rightarrow> (Inr html, w))"
| "pictures_loop c s slideFile (pic # rest) hw =
     (case convertPicture c s slideFile pic hw of
        (Inl e, w1) \<Rightarrow> (Inl e, w1)
      | (Inr html1, w1) \<Rightarrow> pictures_loop c s slideFile rest (html1, w1))"

text \<open>\<^verbatim>\<open>sld['p:cSld']?.[0]?.['p:spTree']?.[0]\<close>.\<close>

definition spTree_of :: "xnode \<Rightarrow> xnode option" where
  "spTree_of sld =
     (case first (child sld ''p:cSld'') of
        None \<Rightarrow> None
      | Some cSld \<Rightarrow> first (child cSld ''p:spTree''))"

text \<open>
  The shape tree that \<^verbatim>\<open>convertSlideToHTML\<close> renders: \<open>None\<close> on each of its three early
  returns (no content, no \<^verbatim>\<open>p:sld\<close>, no \<^verbatim>\<open>spTree\<close>).
\<close>

definition slide_tree :: "slide \<Rightarrow> xnode option" where
  "slide_tree slide =
     (case content slide of
        XNull \<Rightarrow> None
      | XRoot name sld \<Rightarrow>
          (if name = ''p:sld'' then
             (if truthy sld then
                (case spTree_of sld of
                   None \<Rightarrow> None
                 | Some spTree \<Rightarrow> if truthy spTree then Some spTree else None)
              else None)
           else None))"

text \<open>
  Lines 188-240: the container is opened, the text shapes are rendered, then the pictures,
  and the container is closed.
\<close>

definition render_tree ::
  "collab \<Rightarrow> converter \<Rightarrow> world \<Rightarrow> string \<Rightarrow> xnode list \<Rightarrow> xnode list \<Rightarrow>
   (js_error + string) \<times> world" where
  \<open>render_tree c s w slideFile shapes pics =
     (case shapes_loop c ''<div class="slide"><div class="slide-content">'' shapes of
        Inl e \<Rightarrow> (Inl e, w)
      | Inr html \<Rightarrow>
          (case pictures_loop c s slideFile pics (html, w) of
             (Inl e, w1) \<Rightarrow> (Inl e, w1)
           | (Inr html1, w1) \<Rightarrow> (Inr (html1 @ ''</div></div>''), w1)))\<close>

definition convertSlideToHTML ::
  "collab \<Rightarrow> converter \<Rightarrow> world \<Rightarrow> slide \<Rightarrow> (js_error + string) \<times> world" where
  "convertSlideToHTML c s w slide =
     (case slide_tree slide of
        None \<Rightarrow> (Inr [], w)
      | Some spTree \<Rightarrow>
          render_tree c s w (slide_file slide)
            (elements spTree ''p:sp'') (elements spTree ''p:pic''))"

subsection \<open>The document (lines 442-505)\<close>

definition generateStyles :: string where
  \<open>generateStyles =
     join_lines
       ['''',
        ''      <style>'',
        ''        .slide {'',
        ''          position: relative;'',
        ''          width: 100%;'',
        ''          height: 0;'',
        ''          padding-bottom: 56.25%;'',
        ''          margin-bottom: 20px;'',
        ''          background: white;'',
        ''        }'',
        ''        .slide-content {'',
        ''          position: absolute;'',
        ''          top: 0;'',
        ''          left: 0;'',
        ''          width: 100%;'',
        ''          height: 100%;'',
        ''        }'',
        ''        .shape {'',
        ''          position: absolute;'',
        ''          box-sizing: border-box;'',
        ''        }'',
        ''        .text {'',
        ''          word-wrap: break-word;'',
        ''          overflow-wrap: break-word;'',
        ''        }'',
        ''        .image {'',
        ''          max-width: 100%;'',
        ''          height: auto;'',
        ''        }'',
        ''      </style>'',
        ''    '']\<close>

fun slides_loop ::
  "collab \<Rightarrow> converter \<Rightarrow> slide list \<Rightarrow> string \<times> world \<Rightarrow> (js_error + string) \<times> world" where
  "slides_loop c s [] hw = (case hw of (slidesHTML, w) \<Rightarrow> (Inr slidesHTML, w))"
| "slides_loop c s (slide # rest) hw =
     (case hw of (slidesHTML, w) \<Rightarrow>
        (case convertSlideToHTML c s w slide of
           (Inl e, w1) \<Rightarrow> (Inl e, w1)
         | (Inr slideHTML, w1) \<Rightarrow> slides_loop c s rest (slidesHTML @ slideHTML, w1)))"

definition document :: "string \<Rightarrow> string \<Rightarrow> string" where
  \<open>document styles slidesHTML =
     join_lines
       [''<!DOCTYPE html>'',
        ''<html>'',
        ''<head>'',
        ''  <meta charset="UTF-8">'',
        ''  <meta name="viewport" content="width=device-width, initial-scale=1.0">'',
        ''  <title>PowerPoint Presentation</title>'',
        ''  '' @ styles,
        ''</head>'',
        ''<body>'' @ slidesHTML @ ''</body>'',
        ''</html>'']\<close>

definition generateHTML ::
  "collab \<Rightarrow> converter \<Rightarrow> world \<Rightarrow> slide list \<Rightarrow> (js_error + string) \<times> world" where
  "generateHTML c s w sl =
     (case slides_loop c s sl ([], w) of
        (Inl e, w1) \<Rightarrow> (Inl e, w1)
      | (Inr slidesHTML, w1) \<Rightarrow> (Inr (document generateStyles slidesHTML), w1))"

text \<open>
  \<^verbatim>\<open>toHTML\<close>. The method declares no parameter, so an argument of the call is dropped:
  \<open>opts\<close> is what the caller passed, if anything.
\<close>

definition toHTML ::
  "collab \<Rightarrow> options option \<Rightarrow> world \<Rightarrow> converter \<Rightarrow> (js_error + string) \<times> world \<times> converter" where
  "toHTML c opts w s =
     (case initialize c s of
        Inl e \<Rightarrow> (Inl e, w, s)
      | Inr s1 \<Rightarrow>
          (case parseSlides c s1 of
             Inl e \<Rightarrow> (Inl e, w, s1)
           | Inr (sl, s2) \<Rightarrow>
               (case generateHTML c s2 w sl of
                  (result, w1) \<Rightarrow> (result, w1, s2))))"

subsection \<open>The name processors of parseXml (lines 92-103)\<close>

text \<open>
  \<^verbatim>\<open>name.replace(/^[a-z]+:/, '')\<close>: a leading run of lower-case letters followed by a
  colon is removed; any other name is returned as it is.
\<close>

definition nameProcessor :: "string \<Rightarrow> string" where
  "nameProcessor name =
     (if takeWhile is_lower name = [] then name
      else (case dropWhile is_lower name of
              [] \<Rightarrow> name
            | ch # local_name \<Rightarrow> if ch = CHR '':'' then local_name else name))"

text \<open>
  \<^verbatim>\<open>normalizeTags: true\<close> makes xml2js lower-case a tag name before the tag name
  processors run; attribute names go through their processor only. Names are taken to
  be ASCII, so lower-casing changes the letters A to Z.
\<close>

definition toLowerCase :: "string \<Rightarrow> string" where
  "toLowerCase name =
     map (\<lambda>ch. case map_of (zip upper_letters lower_letters) ch of
                 None \<Rightarrow> ch
               | Some l \<Rightarrow> l) name"

definition tag_key :: "string \<Rightarrow> string" where
  "tag_key name = nameProcessor (toLowerCase name)"

definition attr_key :: "string \<Rightarrow> string" where
  "attr_key name = nameProcessor name"

text \<open>A qualified name \<^verbatim>\<open>prefix:local\<close> of the markup.\<close>

definition qname :: "string \<Rightarrow> string \<Rightarrow> string" where
  "qname pre local_name = pre @ '':'' @ local_name"

subsection \<open>The text of a shape, as the specification describes it\<close>

text \<open>
  The specification's text shape is a list of paragraphs, a paragraph a list of runs and a
  run a text string. In the markup the text of a run is the character content of its
  \<^verbatim>\<open>a:t\<close> element, which the parser gives as a string, or under \<^verbatim>\<open>_\<close> when the element has
  attributes.
\<close>

definition run_chars :: "xnode \<Rightarrow> string" where
  "run_chars run =
     (case first (child run ''a:t'') of
        None \<Rightarrow> []
      | Some (XText t) \<Rightarrow> t
      | Some (XElem attrs chars children) \<Rightarrow> chars)"

text \<open>
  The layout of a text shape: one paragraph container per paragraph and one inline span per
  run, both in document order; \<open>text_of\<close> gives what a span holds.
\<close>

definition text_run :: "(xnode \<Rightarrow> string) \<Rightarrow> xnode \<Rightarrow> string" where
  \<open>text_run text_of run = ''<span>'' @ text_of run @ ''</span>''\<close>

definition text_paragraph :: "(xnode \<Rightarrow> string) \<Rightarrow> xnode \<Rightarrow> string" where
  \<open>text_paragraph text_of paragraph =
     ''<p>'' @ concat (map (text_run text_of) (elements paragraph ''a:r'')) @ ''</p>''\<close>

definition text_shape :: "(xnode \<Rightarrow> string) \<Rightarrow> xnode \<Rightarrow> string" where
  \<open>text_shape text_of txBody =
     ''<div class="shape">'' @
     concat (map (text_paragraph text_of) (elements txBody ''a:p'')) @
     ''</div>''\<close>

text \<open>The rendering that the specification describes: every span holds the text of its run.\<close>

definition spec_text_shape :: "xnode \<Rightarrow> string" where
  "spec_text_shape txBody = text_shape run_chars txBody"

text \<open>The \<^verbatim>\<open>a:t\<close> of the run is a string: the element has no attributes.\<close>

definition plain_run :: "xnode \<Rightarrow> bool" where
  "plain_run run =
     (case first (child run ''a:t'') of
        None \<Rightarrow> True
      | Some (XText t) \<Rightarrow> True
      | Some (XElem attrs chars children) \<Rightarrow> False)"

definition plain_paragraph :: "xnode \<Rightarrow> bool" where
  "plain_paragraph paragraph = list_all plain_run (elements paragraph ''a:r'')"

text \<open>
  What stands in the span of a run when the parser's element objects print as \<open>str\<close>: the
  text of a run whose \<^verbatim>\<open>a:t\<close> is a string, and \<open>str\<close> in place of the text otherwise.
\<close>

definition printed_text :: "string \<Rightarrow> xnode \<Rightarrow> string" where
  "printed_text str run = (if plain_run run then run_chars run else str)"

subsection \<open>Notions used to state the properties\<close>

text \<open>A slide container around its content.\<close>

definition container :: "string \<Rightarrow> string" where
  \<open>container inner = ''<div class="slide"><div class="slide-content">'' @ inner @ ''</div></div>''\<close>

definition has_tree :: "slide \<Rightarrow> bool" where
  "has_tree slide = (case slide_tree slide of None \<Rightarrow> False | Some spTree \<Rightarrow> True)"

text \<open>One round of the loop of \<^verbatim>\<open>parseSlides\<close>: the slide it appends, if any.\<close>

definition parse_one :: "collab \<Rightarrow> zipfile \<Rightarrow> string \<Rightarrow> slide option" where
  "parse_one c z name =
     (case zip_file z name of
        None \<Rightarrow> None
      | Some slideContent \<Rightarrow>
          (case parseStringPromise c slideContent of
             None \<Rightarrow> None
           | Some slideXml \<Rightarrow> Some \<lparr>slide_file = name, content = slideXml\<rparr>))"

text \<open>The slide part of this name parses and has a shape tree.\<close>

definition part_has_tree :: "collab \<Rightarrow> zipfile \<Rightarrow> string \<Rightarrow> bool" where
  "part_has_tree c z name =
     (case parse_one c z name of None \<Rightarrow> False | Some slide \<Rightarrow> has_tree slide)"

text \<open>The second world is in order and has the live workers of the first.\<close>

definition same_workers :: "world \<Rightarrow> world \<Rightarrow> bool" where
  "same_workers w w' = (world_ok w' \<and> live w' = live w)"

text \<open>
  The recognition attempt comes back to \<^verbatim>\<open>processImage\<close>, with a text or with a rejection
  that its \<^verbatim>\<open>catch\<close> block handles.
\<close>

fun settles :: "ocr_outcome \<Rightarrow> bool" where
  "settles (Recognized t) = True"
| "settles RecognizeRejected = True"
| "settles AcquireRejected = True"
| "settles RecognizeUncaught = False"
| "settles AcquireUncaught = False"

text \<open>A letter of \<^verbatim>\<open>[a-zA-Z]\<close>.\<close>

definition is_letter :: "char \<Rightarrow> bool" where
  "is_letter ch = (ch \<in> set lower_letters \<or> ch \<in> set upper_letters)"

subsection \<open>Example packages\<close>

text \<open>
  Parsed markup of a run, a paragraph, a text shape, a picture and a slide, and of a run
  whose \<^verbatim>\<open>a:t\<close> has an attribute.
\<close>

definition preserved_run :: "string \<Rightarrow> xnode" where
  "preserved_run t = XElem [] [] [(''a:t'', [XElem [(''xml:space'', ''preserve'')] t []])]"

definition preserved_body :: "string \<Rightarrow> xnode" where
  "preserved_body t = XElem [] [] [(''a:p'', [XElem [] [] [(''a:r'', [preserved_run t])]])]"

definition preserved_shape :: "string \<Rightarrow> xnode" where
  "preserved_shape t = XElem [] [] [(''p:txBody'', [preserved_body t])]"

definition run_node :: "string \<Rightarrow> xnode" where
  "run_node t = XElem [] [] [(''a:t'', [XText t])]"

definition paragraph_node :: "string list \<Rightarrow> xnode" where
  "paragraph_node ts = XElem [] [] [(''a:r'', map run_node ts)]"

definition body_node :: "string list list \<Rightarrow> xnode" where
  "body_node ps = XElem [] [] [(''a:p'', map paragraph_node ps)]"

definition shape_node :: "string list list \<Rightarrow> xnode" where
  "shape_node ps = XElem [] [] [(''p:txBody'', [body_node ps])]"

definition picture_node :: "string \<Rightarrow> xnode" where
  "picture_node rId =
     XElem [] [] [(''p:blipFill'', [XElem [] [] [(''a:blip'', [XElem [(''r:embed'', rId)] [] []])]])]"

definition tree_node :: "xnode list \<Rightarrow> xnode list \<Rightarrow> xnode" where
  "tree_node shapes pics = XElem [] [] [(''p:sp'', shapes), (''p:pic'', pics)]"

definition slide_doc :: "xnode list \<Rightarrow> xnode list \<Rightarrow> xdoc" where
  "slide_doc shapes pics =
     XRoot ''p:sld''
       (XElem [] [] [(''p:cSld'', [XElem [] [] [(''p:spTree'', [tree_node shapes pics])]])])"

text \<open>A slide whose only text shape is inside a group (\<^verbatim>\<open>p:grpSp\<close>).\<close>

definition grouped_doc :: "xnode \<Rightarrow> xdoc" where
  "grouped_doc shape =
     XRoot ''p:sld''
       (XElem [] [] [(''p:cSld'', [XElem [] [] [(''p:spTree'',
          [XElem [] [] [(''p:grpSp'', [XElem [] [] [(''p:sp'', [shape])]])]])]])])"

definition relationship_node :: "string \<Rightarrow> string \<Rightarrow> xnode" where
  "relationship_node ident target = XElem [(''Id'', ident), (''Target'', target)] [] []"

text \<open>A deck whose second and tenth slides say which they are.\<close>

definition deck_zip :: zipfile where
  "deck_zip =
     [(''_rels/.rels'', ''root-rels''),
      (''ppt/presentation.xml'', ''presentation''),
      (''ppt/slides/slide2.xml'', ''markup-two''),
      (''ppt/slides/slide10.xml'', ''markup-ten'')]"

text \<open>An archive with one slide and neither required entry.\<close>

definition bare_zip :: zipfile where
  "bare_zip = [(''ppt/slides/slide1.xml'', ''markup-two'')]"

text \<open>
  A deck of three slide parts: one renders, one has an empty root element and one does
  not parse.
\<close>

definition sparse_zip :: zipfile where
  "sparse_zip =
     [(''_rels/.rels'', ''root-rels''),
      (''ppt/presentation.xml'', ''presentation''),
      (''ppt/slides/slide1.xml'', ''markup-two''),
      (''ppt/slides/slide2.xml'', ''markup-void''),
      (''ppt/slides/slide3.xml'', ''markup-broken'')]"

text \<open>An archive with both required entries and no slide.\<close>

definition hollow_zip :: zipfile where
  "hollow_zip = [(''_rels/.rels'', ''root-rels''), (''ppt/presentation.xml'', ''presentation'')]"

text \<open>
  A deck of one slide with four pictures: one whose relationship is missing, one that is
  recognised, one whose recognition fails in the worker and one that is blank.
\<close>

definition album_zip :: zipfile where
  "album_zip =
     [(''_rels/.rels'', ''root-rels''),
      (''ppt/presentation.xml'', ''presentation''),
      (''ppt/slides/slide1.xml'', ''markup-album''),
      (''ppt/slides/_rels/slide1.xml.rels'', ''album-rels''),
      (''ppt/media/image1.png'', ''png-sign''),
      (''ppt/media/image2.png'', ''png-noise''),
      (''ppt/media/image3.png'', ''png-blank'')]"

definition album_pictures :: "xnode list" where
  "album_pictures =
     [picture_node ''rId9'', picture_node ''rId1'', picture_node ''rId2'', picture_node ''rId3'']"

definition demo_markup :: "(string \<times> xdoc) list" where
  "demo_markup =
     [(''markup-two'', slide_doc [shape_node [[''two'']]] []),
      (''markup-ten'', slide_doc [shape_node [[''ten'']]] []),
      (''markup-void'', XRoot ''p:sld'' (XText [])),
      (''markup-album'', slide_doc [shape_node [[''Hello''], [''World'']]] album_pictures),
      (''album-rels'',
       XRoot ''Relationships''
         (XElem [] [] [(''Relationship'',
            [relationship_node ''rId1'' ''../media/image1.png'',
             relationship_node ''rId2'' ''../media/image2.png'',
             relationship_node ''rId3'' ''../media/image3.png''])]))]"

definition demo :: collab where
  "demo =
     \<lparr>loadAsync =
        map_of [(''deck'', deck_zip), (''bare'', bare_zip), (''album'', album_zip),
                (''hollow'', hollow_zip), (''sparse'', sparse_zip)],
      parseStringPromise = map_of demo_markup,
      recognition = (\<lambda>img. if img = ''png-sign'' then Recognized ''EXIT''
                           else if img = ''png-blank'' then Recognized []
                           else RecognizeUncaught),
      objectToString = Some ''[object Object]''\<rparr>"

text \<open>The same collaborators, with a recognition that fails by a plain rejection.\<close>

definition calm :: collab where
  "calm =
     demo\<lparr>recognition := (\<lambda>img. if img = ''png-sign'' then Recognized ''EXIT''
                                 else if img = ''png-blank'' then Recognized []
                                 else RecognizeRejected)\<rparr>"

text \<open>
  A slide of the album with three text shapes, the last with an attribute on its \<^verbatim>\<open>a:t\<close>,
  and the pictures of the album.
\<close>

definition mixed_slide :: slide where
  "mixed_slide =
     \<lparr>slide_file = ''ppt/slides/slide1.xml'',
      content =
        slide_doc [shape_node [[''a'']], shape_node [[''Hello''], [''World'']], preserved_shape ''b'']
          album_pictures\<rparr>"

text \<open>The same collaborators, with a parser whose element objects have no prototype.\<close>

definition strict :: collab where
  "strict = calm\<lparr>objectToString := None\<rparr>"

definition world0 :: world where
  "world0 = \<lparr>created = 0, live = [], events = []\<rparr>"

definition world1 :: world where
  "world1 = \<lparr>created = 3, live = [1], events = [Created 1]\<rparr>"

text \<open>The converter of the album after \<^verbatim>\<open>initialize\<close>.\<close>

definition album :: converter where
  "album = (PPTXInHTMLOut ''album'')\<lparr>zipf := Some album_zip\<rparr>"

text \<open>The converter of the deck after \<^verbatim>\<open>initialize\<close>; its slides have no relationship files.\<close>

definition deck :: converter where
  "deck = (PPTXInHTMLOut ''deck'')\<lparr>zipf := Some deck_zip\<rparr>"

section \<open>Properties\<close>

subsection \<open>Evaluating the examples\<close>

lemmas string_defs = startsWith_def endsWith_def last_segment_def is_digit_def
  slide_digits_here_def slide_path_here_def

lemma demo_simps:
  "loadAsync demo =
     map_of [(''deck'', deck_zip), (''bare'', bare_zip), (''album'', album_zip),
             (''hollow'', hollow_zip), (''sparse'', sparse_zip)]"
  "parseStringPromise demo = map_of demo_markup"
  "recognition demo img =
     (if img = ''png-sign'' then Recognized ''EXIT''
      else if img = ''png-blank'' then Recognized []
      else RecognizeUncaught)"
  "objectToString demo = Some ''[object Object]''"
  by (simp_all add: demo_def)

lemma calm_simps:
  "loadAsync calm = loadAsync demo"
  "parseStringPromise calm = parseStringPromise demo"
  "recognition calm img =
     (if img = ''png-sign'' then Recognized ''EXIT''
      else if img = ''png-blank'' then Recognized []
      else RecognizeRejected)"
  "objectToString calm = objectToString demo"
  by (simp_all add: calm_def)

lemma album_simps: "zipf album = Some album_zip" "pptxBuffer album = ''album''"
  by (simp_all add: album_def PPTXInHTMLOut_def)

lemmas album_defs = demo_simps album_simps album_zip_def demo_markup_def
  relationship_node_def picture_node_def album_pictures_def zip_file_def

lemma album_number: "match_slide_number ''ppt/slides/slide1.xml'' = Some ''1''"
  by (simp add: string_defs)

lemma album_rels:
  "getSlideRels demo album ''ppt/slides/slide1.xml'' =
     Some [''rId1'' \<mapsto> ''../media/image1.png'', ''rId2'' \<mapsto> ''../media/image2.png'',
           ''rId3'' \<mapsto> ''../media/image3.png'']"
  by (simp add: getSlideRels_def album_number album_defs string_defs)

lemma getSlideRels_calm: "getSlideRels calm s f = getSlideRels demo s f"
  by (simp add: getSlideRels_def calm_simps cong: option.case_cong)

lemma getImageData_calm: "getImageData calm s f r = getImageData demo s f r"
  by (simp add: getImageData_def getSlideRels_calm cong: option.case_cong)

lemma album_images:
  "getImageData demo album ''ppt/slides/slide1.xml'' ''rId1'' = Some ''png-sign''"
  "getImageData demo album ''ppt/slides/slide1.xml'' ''rId2'' = Some ''png-noise''"
  "getImageData demo album ''ppt/slides/slide1.xml'' ''rId3'' = Some ''png-blank''"
  "getImageData demo album ''ppt/slides/slide1.xml'' ''rId9'' = None"
  by (simp_all add: getImageData_def album_rels album_defs string_defs)

lemma album_embed: "embed_id (picture_node r) = Some r"
  by (simp add: embed_id_def picture_node_def)

lemma demo_slide_tree:
  "slide_tree \<lparr>slide_file = f, content = slide_doc shapes pics\<rparr> =
     Some (XElem [] [] [(''p:sp'', shapes), (''p:pic'', pics)])"
  by (simp add: slide_tree_def slide_doc_def tree_node_def spTree_of_def)

lemma demo_shape:
  \<open>shapes_loop c html [shape_node [[t]]] =
     Inr (html @ ''<div class="shape"><p><span>'' @ t @ ''</span></p></div>'')\<close>
  by (simp add: shape_node_def body_node_def paragraph_node_def run_node_def txBody_of_def elements_def
      run_text_def)

lemma demo_text_slide:
  \<open>convertSlideToHTML c s w \<lparr>slide_file = f, content = slide_doc [shape_node [[t]]] []\<rparr> =
     (Inr (''<div class="slide"><div class="slide-content"><div class="shape"><p><span>'' @ t @
           ''</span></p></div></div></div>''), w)\<close>
  by (simp add: convertSlideToHTML_def demo_slide_tree render_tree_def elements_def demo_shape
      del: shapes_loop.simps)

subsection \<open>The picture loop\<close>

lemma processImage_fst:
  "fst (processImage c w img) =
     (case recognition c img of
        Recognized t \<Rightarrow> Inr (Some t)
      | RecognizeRejected \<Rightarrow> Inr None
      | RecognizeUncaught \<Rightarrow> Inl Uncaught
      | AcquireRejected \<Rightarrow> Inr None
      | AcquireUncaught \<Rightarrow> Inl Uncaught)"
  by (simp add: processImage_def createWorker_def split: ocr_outcome.splits)

lemma convertPicture_fst:
  "fst (convertPicture c s f pic (html, w)) = fst (convertPicture c s f pic (html, w'))"
  by (simp add: convertPicture_def processImage_def createWorker_def
        split: option.splits ocr_outcome.splits)

lemma pictures_loop_fst:
  "fst (pictures_loop c s f pics (html, w)) = fst (pictures_loop c s f pics (html, w'))"
proof (induction pics arbitrary: html w w')
  case Nil
  show ?case by simp
next
  case (Cons pic pics)
  obtain r1 w1 where a: "convertPicture c s f pic (html, w) = (r1, w1)"
    by (cases "convertPicture c s f pic (html, w)")
  obtain r2 w2 where b: "convertPicture c s f pic (html, w') = (r2, w2)"
    by (cases "convertPicture c s f pic (html, w')")
  have "r1 = r2"
    using convertPicture_fst [of c s f pic html w w'] a b by simp
  with a b Cons.IH show ?case
    by (cases r2) simp_all
qed

lemma render_tree_fst:
  \<open>fst (render_tree c s w f shapes pics) =
     (case shapes_loop c ''<div class="slide"><div class="slide-content">'' shapes of
        Inl e \<Rightarrow> Inl e
      | Inr html \<Rightarrow>
          (case fst (pictures_loop c s f pics (html, w)) of
             Inl e \<Rightarrow> Inl e
           | Inr html1 \<Rightarrow> Inr (html1 @ ''</div></div>'')))\<close>
  by (simp add: render_tree_def split: sum.splits prod.splits)

lemma pictures_loop_skip:
  assumes "\<And>h w. fst (convertPicture c s f pic (h, w)) = Inr h"
  shows "fst (pictures_loop c s f (before @ pic # after) (html, w)) =
         fst (pictures_loop c s f (before @ after) (html, w))"
proof (induction before arbitrary: html w)
  case Nil
  obtain r w1 where a: "convertPicture c s f pic (html, w) = (r, w1)"
    by (cases "convertPicture c s f pic (html, w)")
  with assms [of html w] have "r = Inr html"
    by simp
  with a show ?case
    by (simp add: pictures_loop_fst [of c s f after html w1 w])
next
  case (Cons x before)
  obtain r w1 where a: "convertPicture c s f x (html, w) = (r, w1)"
    by (cases "convertPicture c s f x (html, w)")
  with Cons.IH show ?case
    by (cases r) simp_all
qed

lemma render_tree_skip:
  assumes "\<And>h w. fst (convertPicture c s f pic (h, w)) = Inr h"
  shows "fst (render_tree c s w f shapes (before @ pic # after)) =
         fst (render_tree c s w f shapes (before @ after))"
  by (simp add: render_tree_fst pictures_loop_skip [OF assms] cong: sum.case_cong)

lemma pictures_loop_drop:
  assumes "\<And>hw. convertPicture c s f pic hw = (Inr (fst hw), snd hw)"
  shows "pictures_loop c s f (before @ pic # after) hw = pictures_loop c s f (before @ after) hw"
proof (induction before arbitrary: hw)
  case Nil
  show ?case
    using assms [of hw] by (cases hw) simp
next
  case (Cons x before)
  obtain r w1 where a: "convertPicture c s f x hw = (r, w1)"
    by (cases "convertPicture c s f x hw")
  with Cons.IH show ?case
    by (cases r) simp_all
qed

lemma album_render:
  \<open>fst (render_tree demo album world0 ''ppt/slides/slide1.xml'' [] [picture_node ''rId1'']) =
     Inr (''<div class="slide"><div class="slide-content">'' @ picture_html ''EXIT'' @
          ''</div></div>'')\<close>
  by (simp add: render_tree_fst convertPicture_def album_embed album_images processImage_def
      createWorker_def demo_simps)

text \<open>
  Claim C4. A picture whose embed id is not in the relationship table of its slide, or
  whose slide has no relationship table (no relationship file, or one that cannot be
  read), resolves to no image. Its step of the picture loop leaves the accumulated html
  and the world as they were, and the slide is rendered exactly as it is without the
  picture, whatever comes before and after it: nothing is raised on the way.
\<close>

theorem picture_without_relationship:
  assumes "embed_id pic = Some rId"
    and "case getSlideRels c s f of None \<Rightarrow> True | Some rels \<Rightarrow> rels rId = None"
  shows "getImageData c s f rId = None \<and>
         convertPicture c s f pic (html, w) = (Inr html, w) \<and>
         render_tree c s w f shapes (before @ pic # after) =
           render_tree c s w f shapes (before @ after)"
proof -
  have none: "getImageData c s f rId = None"
    using assms(2) by (simp add: getImageData_def split: option.splits)
  have step: "convertPicture c s f pic hw = (Inr (fst hw), snd hw)" for hw
    using assms(1) none by (cases hw) (simp add: convertPicture_def)
  have "pictures_loop c s f (before @ pic # after) hw = pictures_loop c s f (before @ after) hw"
    for hw
    using step by (rule pictures_loop_drop)
  then show ?thesis
    using none step [of "(html, w)"] by (simp add: render_tree_def cong: sum.case_cong)
qed

theorem picture_without_relationship_witness:
  \<open>embed_id (picture_node ''rId9'') = Some ''rId9'' \<and>
   (case getSlideRels demo album ''ppt/slides/slide1.xml'' of
      None \<Rightarrow> True
    | Some rels \<Rightarrow> rels ''rId9'' = None) \<and>
   getSlideRels demo album ''ppt/slides/slide1.xml'' \<noteq> None \<and>
   getImageData demo album ''ppt/slides/slide1.xml'' ''rId9'' = None \<and>
   convertPicture demo album ''ppt/slides/slide1.xml'' (picture_node ''rId9'') (''<p>'', world0) =
     (Inr ''<p>'', world0) \<and>
   fst (render_tree demo album world0 ''ppt/slides/slide1.xml'' []
          [picture_node ''rId1'', picture_node ''rId9'']) =
     Inr (''<div class="slide"><div class="slide-content">'' @ picture_html ''EXIT'' @
          ''</div></div>'') \<and>
   getSlideRels demo deck ''ppt/slides/slide2.xml'' = None \<and>
   getImageData demo deck ''ppt/slides/slide2.xml'' ''rId9'' = None \<and>
   render_tree demo deck world0 ''ppt/slides/slide2.xml'' [] [picture_node ''rId9''] =
     (Inr ''<div class="slide"><div class="slide-content"></div></div>'', world0)\<close>
proof -
  have h1: "embed_id (picture_node ''rId9'') = Some ''rId9''"
    by (rule album_embed)
  have h2: "case getSlideRels demo album ''ppt/slides/slide1.xml'' of
              None \<Rightarrow> True
            | Some rels \<Rightarrow> rels ''rId9'' = None"
    by (simp add: album_rels)
  have none: "getSlideRels demo deck ''ppt/slides/slide2.xml'' = None"
    by (simp add: getSlideRels_def deck_def deck_zip_def zip_file_def string_defs)
  then have h3: "case getSlideRels demo deck ''ppt/slides/slide2.xml'' of
              None \<Rightarrow> True
            | Some rels \<Rightarrow> rels ''rId9'' = None"
    by simp
  have empty: \<open>render_tree demo deck world0 ''ppt/slides/slide2.xml'' [] [] =
     (Inr ''<div class="slide"><div class="slide-content"></div></div>'', world0)\<close>
    by (simp add: render_tree_def)
  show ?thesis
    using h1 h2 none album_render empty
      picture_without_relationship
        [OF h1 h2, of "''<p>''" world0 "[]" "[picture_node ''rId1'']" "[]"]
      picture_without_relationship [OF h1 h3, of "[]" world0 "[]" "[]" "[]"]
    by (simp add: album_rels)
qed

lemma picture_html_not_empty: "picture_html t \<noteq> []"
  by (simp add: picture_html_def)

text \<open>
  Claim C10. When the image of a picture is found and its recognition succeeds with the
  text \<open>t\<close>, the picture fragment is appended exactly when \<open>t\<close> is not empty. With an
  empty text the html is left as it was, and the slide renders as it does without the
  picture, which is also how it renders a picture that could not be resolved.
\<close>

theorem blank_recognition_emits_nothing:
  assumes "embed_id pic = Some rId" and "rId \<noteq> []"
    and "getImageData c s f rId = Some img"
    and "recognition c img = Recognized t"
  shows "fst (convertPicture c s f pic (html, w)) =
           Inr (if t = [] then html else html @ picture_html t) \<and>
         (fst (convertPicture c s f pic (html, w)) = Inr html) = (t = []) \<and>
         (if t = []
          then fst (render_tree c s w f shapes (before @ pic # after)) =
               fst (render_tree c s w f shapes (before @ after))
          else True)"
proof -
  have some: "fst (processImage c w0 img) = Inr (Some t)" for w0
    using assms(4) by (simp add: processImage_fst)
  have step: "fst (convertPicture c s f pic (h, w0)) =
                Inr (if t = [] then h else h @ picture_html t)"
    for h w0
    using assms(1,2,3) some [of w0]
    by (auto simp: convertPicture_def split: prod.splits option.splits sum.splits)
  have skip: "fst (render_tree c s w f shapes (before @ pic # after)) =
              fst (render_tree c s w f shapes (before @ after))" if "t = []"
    using that step render_tree_skip [of c s f pic w shapes before after] by simp
  show ?thesis
    using step [of html w] skip picture_html_not_empty [of t] by simp
qed

theorem blank_recognition_emits_nothing_witness:
  \<open>embed_id (picture_node ''rId3'') = Some ''rId3'' \<and> ''rId3'' \<noteq> [] \<and>
   getImageData demo album ''ppt/slides/slide1.xml'' ''rId3'' = Some ''png-blank'' \<and>
   recognition demo ''png-blank'' = Recognized [] \<and>
   fst (convertPicture demo album ''ppt/slides/slide1.xml'' (picture_node ''rId3'')
          (''<p>'', world0)) = Inr ''<p>'' \<and>
   fst (render_tree demo album world0 ''ppt/slides/slide1.xml'' []
          [picture_node ''rId1'', picture_node ''rId3'']) =
     Inr (''<div class="slide"><div class="slide-content">'' @ picture_html ''EXIT'' @
          ''</div></div>'')\<close>
proof -
  have h1: "embed_id (picture_node ''rId3'') = Some ''rId3''"
    by (rule album_embed)
  have h2: "''rId3'' \<noteq> []"
    by simp
  have h3: "getImageData demo album ''ppt/slides/slide1.xml'' ''rId3'' = Some ''png-blank''"
    by (rule album_images)
  have h4: "recognition demo ''png-blank'' = Recognized []"
    by (simp add: demo_simps)
  show ?thesis
    using h1 h2 h3 h4 album_render
      blank_recognition_emits_nothing
        [OF h1 h2 h3 h4, of "''<p>''" world0 "[]" "[picture_node ''rId1'']" "[]"]
    by simp
qed

subsection \<open>What the document depends on\<close>

lemma getSlideRels_zipf:
  "zipf s = zipf s' \<Longrightarrow> getSlideRels c s f = getSlideRels c s' f"
  by (simp add: getSlideRels_def cong: option.case_cong)

lemma getImageData_zipf:
  "zipf s = zipf s' \<Longrightarrow> getImageData c s f r = getImageData c s' f r"
  by (simp add: getImageData_def getSlideRels_zipf [of s s'] cong: option.case_cong)

lemma convertPicture_zipf:
  "zipf s = zipf s' \<Longrightarrow> convertPicture c s f pic hw = convertPicture c s' f pic hw"
  by (simp add: convertPicture_def getImageData_zipf [of s s']
      cong: option.case_cong prod.case_cong if_cong)

lemma pictures_loop_zipf:
  "zipf s = zipf s' \<Longrightarrow> pictures_loop c s f pics hw = pictures_loop c s' f pics hw"
proof (induction pics arbitrary: hw)
  case Nil
  show ?case by simp
next
  case (Cons pic pics)
  obtain r w1 where a: "convertPicture c s' f pic hw = (r, w1)"
    by (cases "convertPicture c s' f pic hw")
  with Cons show ?case
    by (cases r) (simp_all add: convertPicture_zipf [of s s'])
qed

lemma convertSlide_fst:
  assumes "zipf s = zipf s'"
  shows "fst (convertSlideToHTML c s w slide) = fst (convertSlideToHTML c s' w' slide)"
proof (cases "slide_tree slide")
  case None
  then show ?thesis by (simp add: convertSlideToHTML_def)
next
  case (Some spTree)
  have "fst (pictures_loop c s f pics (h, w)) = fst (pictures_loop c s' f pics (h, w'))"
    for f pics h
    using pictures_loop_zipf [OF assms, of c f pics "(h, w)"]
      pictures_loop_fst [of c s' f pics h w w'] by simp
  with Some show ?thesis
    by (simp add: convertSlideToHTML_def render_tree_fst cong: sum.case_cong)
qed

lemma slides_loop_fst:
  assumes "zipf s = zipf s'"
  shows "fst (slides_loop c s sl (acc, w)) = fst (slides_loop c s' sl (acc, w'))"
proof (induction sl arbitrary: acc w w')
  case Nil
  show ?case by simp
next
  case (Cons slide sl)
  obtain r1 w1 where a: "convertSlideToHTML c s w slide = (r1, w1)"
    by (cases "convertSlideToHTML c s w slide")
  obtain r2 w2 where b: "convertSlideToHTML c s' w' slide = (r2, w2)"
    by (cases "convertSlideToHTML c s' w' slide")
  have "r1 = r2"
    using convertSlide_fst [OF assms, of c w slide w'] a b by simp
  with a b Cons.IH show ?case
    by (cases r2) simp_all
qed

lemma generateHTML_fst:
  assumes "zipf s = zipf s'"
  shows "fst (generateHTML c s w sl) = fst (generateHTML c s' w' sl)"
proof -
  obtain r1 w1 where a: "slides_loop c s sl ([], w) = (r1, w1)"
    by (cases "slides_loop c s sl ([], w)")
  obtain r2 w2 where b: "slides_loop c s' sl ([], w') = (r2, w2)"
    by (cases "slides_loop c s' sl ([], w')")
  have "r1 = r2"
    using slides_loop_fst [OF assms, of c sl "[]" w w'] a b by simp
  with a b show ?thesis
    by (cases r2) (simp_all add: generateHTML_def)
qed

text \<open>
  The result of \<^verbatim>\<open>toHTML\<close> in terms of the buffer alone: the archive is loaded again and
  \<^verbatim>\<open>this.slides\<close> is rebuilt from it on every call.
\<close>

lemma toHTML_fst:
  "fst (toHTML c opts w s) =
     (case loadAsync c (pptxBuffer s) of
        None \<Rightarrow> Inl LoadFailure
      | Some z \<Rightarrow>
          fst (generateHTML c (s\<lparr>zipf := Some z\<rparr>) w
                 (parse_loop c z (sort (filter is_slide_name (zip_names z))) [])))"
proof (cases "loadAsync c (pptxBuffer s)")
  case None
  then show ?thesis
    by (simp add: toHTML_def initialize_def)
next
  case (Some z)
  let ?sl = "parse_loop c z (sort (filter is_slide_name (zip_names z))) []"
  have "fst (generateHTML c (s\<lparr>zipf := Some z, slides := ?sl\<rparr>) w ?sl) =
        fst (generateHTML c (s\<lparr>zipf := Some z\<rparr>) w ?sl)"
    by (rule generateHTML_fst) simp
  with Some show ?thesis
    by (simp add: toHTML_def initialize_def parseSlides_def Let_def case_prod_beta)
qed

lemma toHTML_buffer: "pptxBuffer (snd (snd (toHTML c opts w s))) = pptxBuffer s"
  by (simp add: toHTML_def initialize_def parseSlides_def Let_def
      split: option.splits sum.splits prod.splits)

subsection \<open>The album\<close>

lemma album_names:
  "sort (filter is_slide_name (zip_names album_zip)) = [''ppt/slides/slide1.xml'']"
  by (simp add: is_slide_name_def zip_names_def album_zip_def string_defs)

lemma album_parsed:
  "parse_loop c album_zip [''ppt/slides/slide1.xml''] [] =
     (case parseStringPromise c ''markup-album'' of
        None \<Rightarrow> []
      | Some doc \<Rightarrow> [\<lparr>slide_file = ''ppt/slides/slide1.xml'', content = doc\<rparr>])"
  by (simp add: zip_file_def album_zip_def string_defs split: option.splits)

lemma album_doc:
  "parseStringPromise demo ''markup-album'' =
     Some (slide_doc [shape_node [[''Hello''], [''World'']]] album_pictures)"
  by (simp add: demo_simps demo_markup_def)

lemma hello_shapes:
  \<open>shapes_loop c html [shape_node [[''Hello''], [''World'']]] =
     Inr (html @ ''<div class="shape"><p><span>Hello</span></p><p><span>World</span></p></div>'')\<close>
  by (simp add: shape_node_def body_node_def paragraph_node_def run_node_def txBody_of_def elements_def
      run_text_def)

lemma album_pictures_demo:
  "fst (pictures_loop demo album ''ppt/slides/slide1.xml'' album_pictures (html, w)) =
     Inl Uncaught"
  by (simp add: album_pictures_def convertPicture_def album_embed album_images processImage_def
      createWorker_def demo_simps)

lemma album_pictures_calm:
  "fst (pictures_loop calm album ''ppt/slides/slide1.xml'' album_pictures (html, w)) =
     Inr (html @ picture_html ''EXIT'')"
  by (simp add: album_pictures_def convertPicture_def album_embed album_images processImage_def
      createWorker_def calm_simps getImageData_calm)

lemma album_slide:
  \<open>fst (convertSlideToHTML c album w
          \<lparr>slide_file = ''ppt/slides/slide1.xml'',
            content = slide_doc [shape_node [[''Hello''], [''World'']]] album_pictures\<rparr>) =
     (case fst (pictures_loop c album ''ppt/slides/slide1.xml'' album_pictures
                  (''<div class="slide"><div class="slide-content"><div class="shape"><p><span>Hello</span></p><p><span>World</span></p></div>'', w)) of
        Inl e \<Rightarrow> Inl e
      | Inr html \<Rightarrow> Inr (html @ ''</div></div>''))\<close>
  by (simp add: convertSlideToHTML_def demo_slide_tree render_tree_fst elements_def hello_shapes
      del: shapes_loop.simps)

lemma slides_loop_single:
  "fst (slides_loop c s [slide] ([], w)) = fst (convertSlideToHTML c s w slide)"
proof -
  obtain r w1 where a: "convertSlideToHTML c s w slide = (r, w1)"
    by (cases "convertSlideToHTML c s w slide")
  then show ?thesis
    by (cases r) simp_all
qed

lemma album_html:
  assumes "loadAsync c ''album'' = Some album_zip"
    and "parseStringPromise c ''markup-album'' =
           Some (slide_doc [shape_node [[''Hello''], [''World'']]] album_pictures)"
  shows "fst (toHTML c opts w (PPTXInHTMLOut ''album'')) =
     (case fst (convertSlideToHTML c album w
                  \<lparr>slide_file = ''ppt/slides/slide1.xml'',
                    content = slide_doc [shape_node [[''Hello''], [''World'']]] album_pictures\<rparr>) of
        Inl e \<Rightarrow> Inl e
      | Inr html \<Rightarrow> Inr (document generateStyles html))"
proof -
  let ?slide = "\<lparr>slide_file = ''ppt/slides/slide1.xml'',
                 content = slide_doc [shape_node [[''Hello''], [''World'']]] album_pictures\<rparr>"
  have "fst (toHTML c opts w (PPTXInHTMLOut ''album'')) =
        fst (generateHTML c album w
               (parse_loop c album_zip (sort (filter is_slide_name (zip_names album_zip))) []))"
    using assms(1) by (simp add: toHTML_fst PPTXInHTMLOut_def album_def)
  also have "\<dots> = fst (generateHTML c album w [?slide])"
    using assms(2) by (simp only: album_names album_parsed) simp
  also have "\<dots> = (case fst (slides_loop c album [?slide] ([], w)) of
                      Inl e \<Rightarrow> Inl e
                    | Inr html \<Rightarrow> Inr (document generateStyles html))"
    by (simp add: generateHTML_def split: prod.splits sum.splits)
  finally show ?thesis
    by (simp only: slides_loop_single)
qed

text \<open>
  Claim C8. With the same collaborators, the result of \<^verbatim>\<open>toHTML\<close> (the document or the
  error) is determined by the bytes of the buffer: it is the same for any two converters
  that hold the same bytes, whatever earlier calls left in their fields, whatever the
  caller passes and however many workers the world has seen. In particular a second call
  on the same converter returns what the first call returned.
\<close>

theorem toHTML_deterministic:
  assumes "pptxBuffer s1 = pptxBuffer s2"
  shows "fst (toHTML c o1 w1 s1) = fst (toHTML c o2 w2 s2) \<and>
         fst (toHTML c o1 (fst (snd (toHTML c o1 w1 s1))) (snd (snd (toHTML c o1 w1 s1)))) =
           fst (toHTML c o1 w1 s1)"
proof -
  have same: "fst (toHTML c oa wa sa) = fst (toHTML c ob wb sb)"
    if "pptxBuffer sa = pptxBuffer sb" for oa ob wa wb sa sb
  proof (cases "loadAsync c (pptxBuffer sb)")
    case None
    with that show ?thesis by (simp add: toHTML_fst)
  next
    case (Some z)
    have "zipf (sa\<lparr>zipf := Some z\<rparr>) = zipf (sb\<lparr>zipf := Some z\<rparr>)"
      by simp
    from generateHTML_fst [OF this] Some that show ?thesis
      by (simp add: toHTML_fst)
  qed
  show ?thesis
    using same [OF assms] same [OF toHTML_buffer] by simp
qed

theorem toHTML_deterministic_witness:
  \<open>pptxBuffer (PPTXInHTMLOut ''album'') =
     pptxBuffer (album\<lparr>slides := [\<lparr>slide_file = ''x'', content = XNull\<rparr>]\<rparr>) \<and>
   fst (toHTML calm None world0 (PPTXInHTMLOut ''album'')) =
     fst (toHTML calm (Some \<lparr>includeStyles = False\<rparr>) world1
            (album\<lparr>slides := [\<lparr>slide_file = ''x'', content = XNull\<rparr>]\<rparr>)) \<and>
   fst (toHTML calm None (fst (snd (toHTML calm None world0 (PPTXInHTMLOut ''album''))))
          (snd (snd (toHTML calm None world0 (PPTXInHTMLOut ''album''))))) =
     fst (toHTML calm None world0 (PPTXInHTMLOut ''album'')) \<and>
   fst (toHTML calm None world0 (PPTXInHTMLOut ''album'')) =
     Inr (document generateStyles
            (''<div class="slide"><div class="slide-content"><div class="shape"><p><span>Hello</span></p><p><span>World</span></p></div>'' @
             picture_html ''EXIT'' @ ''</div></div>''))\<close>
proof -
  have h: "pptxBuffer (PPTXInHTMLOut ''album'') =
           pptxBuffer (album\<lparr>slides := [\<lparr>slide_file = ''x'', content = XNull\<rparr>]\<rparr>)"
    by (simp add: album_def)
  have load: "loadAsync calm ''album'' = Some album_zip"
    by (simp add: calm_simps demo_simps)
  have doc: "parseStringPromise calm ''markup-album'' =
      Some (slide_doc [shape_node [[''Hello''], [''World'']]] album_pictures)"
    by (simp add: calm_simps album_doc)
  have v: \<open>fst (toHTML calm None world0 (PPTXInHTMLOut ''album'')) =
     Inr (document generateStyles
            (''<div class="slide"><div class="slide-content"><div class="shape"><p><span>Hello</span></p><p><span>World</span></p></div>'' @
             picture_html ''EXIT'' @ ''</div></div>''))\<close>
    by (simp add: album_html [OF load doc] album_slide album_pictures_calm)
  show ?thesis
    using h v
      toHTML_deterministic
        [OF h, of calm None world0 "Some \<lparr>includeStyles = False\<rparr>" world1]
    by (simp only: simp_thms)
qed

subsection \<open>A recognition that fails in the worker\<close>

text \<open>
  Claim C5 on the album. The image of the picture \<^verbatim>\<open>rId2\<close> is found, and its recognition
  fails in the worker. The exception that the library throws from the worker's message
  handler is not caught by \<^verbatim>\<open>processImage\<close>: the picture step, the slide and the whole
  conversion end with it, and no document is returned.
\<close>

theorem failed_recognition_ends_the_conversion:
  \<open>getImageData demo album ''ppt/slides/slide1.xml'' ''rId2'' = Some ''png-noise'' \<and>
   recognition demo ''png-noise'' = RecognizeUncaught \<and>
   fst (processImage demo world0 ''png-noise'') = Inl Uncaught \<and>
   fst (convertPicture demo album ''ppt/slides/slide1.xml'' (picture_node ''rId2'')
          (''<p>'', world0)) = Inl Uncaught \<and>
   fst (toHTML demo None world0 (PPTXInHTMLOut ''album'')) = Inl Uncaught\<close>
proof -
  have load: "loadAsync demo ''album'' = Some album_zip"
    by (simp add: demo_simps)
  have "fst (toHTML demo None world0 (PPTXInHTMLOut ''album'')) = Inl Uncaught"
    by (simp add: album_html [OF load album_doc] album_slide album_pictures_demo)
  moreover have "fst (convertPicture demo album ''ppt/slides/slide1.xml''
      (picture_node ''rId2'') (''<p>'', world0)) = Inl Uncaught"
    by (simp add: convertPicture_def album_embed album_images processImage_def
        createWorker_def demo_simps)
  ultimately show ?thesis
    by (simp add: album_images processImage_fst demo_simps)
qed

text \<open>
  Claim C9 on a recognition that fails in the worker. The worker is created and the
  recognition is started on it; the process then ends in the library's message handler,
  before the \<^verbatim>\<open>finally\<close> block: the worker is still alive and the log has no termination.
  The same holds of a worker that fails while it starts.
\<close>

theorem failed_recognition_leaves_the_worker:
  "recognition demo ''png-noise'' = RecognizeUncaught \<and>
   processImage demo world1 ''png-noise'' =
     (Inl Uncaught,
      \<lparr>created = 4, live = [3, 1],
       events = [Created 1, Created 3, Recognizing 3 ''png-noise'']\<rparr>) \<and>
   processImage (demo\<lparr>recognition := \<lambda>img. AcquireUncaught\<rparr>) world1 ''png-sign'' =
     (Inl Uncaught, \<lparr>created = 4, live = [3, 1], events = [Created 1, Created 3]\<rparr>)"
  by (simp add: processImage_def createWorker_def recognize_def world1_def demo_simps)

subsection \<open>Text shapes\<close>

lemma run_text_plain: "plain_run run \<Longrightarrow> run_text c run = Inr (run_chars run)"
  by (simp add: plain_run_def run_text_def run_chars_def split: option.splits xnode.splits)

lemma run_text_printed:
  "objectToString c = Some str \<Longrightarrow> run_text c run = Inr (printed_text str run)"
  by (simp add: printed_text_def plain_run_def run_text_def run_chars_def
      split: option.splits xnode.splits)

lemma run_text_unprintable:
  "objectToString c = None \<Longrightarrow> \<not> plain_run run \<Longrightarrow> run_text c run = Inl TypeError"
  by (simp add: plain_run_def run_text_def split: option.splits xnode.splits)

lemma runs_loop_layout:
  assumes "\<forall>run \<in> set runs. run_text c run = Inr (text_of run)"
  shows "runs_loop c html runs = Inr (html @ concat (map (text_run text_of) runs))"
  using assms
  by (induction runs arbitrary: html) (simp_all add: text_run_def)

lemma paragraphs_loop_layout:
  assumes "\<forall>p \<in> set ps. \<forall>run \<in> set (elements p ''a:r''). run_text c run = Inr (text_of run)"
  shows "paragraphs_loop c html ps = Inr (html @ concat (map (text_paragraph text_of) ps))"
  using assms
proof (induction ps arbitrary: html)
  case Nil
  show ?case by simp
next
  case (Cons para ps)
  have "runs_loop c (html @ ''<p>'') (elements para ''a:r'') =
        Inr ((html @ ''<p>'') @ concat (map (text_run text_of) (elements para ''a:r'')))"
    using Cons.prems by (intro runs_loop_layout) simp
  moreover have "paragraphs_loop c h ps = Inr (h @ concat (map (text_paragraph text_of) ps))"
    for h
    using Cons.prems by (intro Cons.IH) simp
  moreover have "text_paragraph text_of para =
      ''<p>'' @ concat (map (text_run text_of) (elements para ''a:r'')) @ ''</p>''"
    by (simp add: text_paragraph_def)
  ultimately show ?case
    by simp
qed

lemma paragraphs_loop_plain:
  assumes "list_all plain_paragraph ps"
  shows "paragraphs_loop c html ps = Inr (html @ concat (map (text_paragraph run_chars) ps))"
  using assms
  by (intro paragraphs_loop_layout) (simp add: list_all_iff plain_paragraph_def run_text_plain)

lemma paragraphs_loop_printed:
  assumes "objectToString c = Some str"
  shows "paragraphs_loop c html ps =
           Inr (html @ concat (map (text_paragraph (printed_text str)) ps))"
  by (intro paragraphs_loop_layout) (simp add: run_text_printed [OF assms])

lemma runs_loop_unprintable:
  assumes "objectToString c = None" and "\<not> list_all plain_run runs"
  shows "runs_loop c html runs = Inl TypeError"
  using assms(2)
proof (induction runs arbitrary: html)
  case Nil
  then show ?case by simp
next
  case (Cons run runs)
  show ?case
  proof (cases "plain_run run")
    case True
    with Cons show ?thesis
      by (simp add: run_text_plain)
  next
    case False
    then show ?thesis
      by (simp add: run_text_unprintable [OF assms(1)])
  qed
qed

lemma paragraphs_loop_unprintable:
  assumes "objectToString c = None" and "\<not> list_all plain_paragraph ps"
  shows "paragraphs_loop c html ps = Inl TypeError"
  using assms(2)
proof (induction ps arbitrary: html)
  case Nil
  then show ?case by simp
next
  case (Cons para ps)
  show ?case
  proof (cases "plain_paragraph para")
    case True
    then have "runs_loop c (html @ ''<p>'') (elements para ''a:r'') =
        Inr ((html @ ''<p>'') @ concat (map (text_run run_chars) (elements para ''a:r'')))"
      by (intro runs_loop_layout) (simp add: plain_paragraph_def list_all_iff run_text_plain)
    with True Cons show ?thesis
      by simp
  next
    case False
    then show ?thesis
      by (simp add: plain_paragraph_def runs_loop_unprintable [OF assms(1)])
  qed
qed

text \<open>The loops append to what they are given.\<close>

lemma runs_loop_acc:
  "runs_loop c (h @ html) runs =
     (case runs_loop c html runs of Inl e \<Rightarrow> Inl e | Inr y \<Rightarrow> Inr (h @ y))"
proof (induction runs arbitrary: html)
  case Nil
  show ?case by simp
next
  case (Cons run runs)
  show ?case
  proof (cases "run_text c run")
    case (Inl e)
    then show ?thesis by simp
  next
    case (Inr t)
    then show ?thesis
      using Cons [of "html @ ''<span>'' @ t @ ''</span>''"] by simp
  qed
qed

lemma paragraphs_loop_acc:
  "paragraphs_loop c (h @ html) ps =
     (case paragraphs_loop c html ps of Inl e \<Rightarrow> Inl e | Inr y \<Rightarrow> Inr (h @ y))"
proof (induction ps arbitrary: html)
  case Nil
  show ?case by simp
next
  case (Cons para ps)
  have acc: "runs_loop c (h @ html @ ''<p>'') (elements para ''a:r'') =
     (case runs_loop c (html @ ''<p>'') (elements para ''a:r'') of
        Inl e \<Rightarrow> Inl e | Inr y \<Rightarrow> Inr (h @ y))"
    by (rule runs_loop_acc)
  show ?case
  proof (cases "runs_loop c (html @ ''<p>'') (elements para ''a:r'')")
    case (Inl e)
    with acc show ?thesis by simp
  next
    case (Inr y)
    with acc show ?thesis
      using Cons [of "y @ ''</p>''"] by simp
  qed
qed

lemma shapes_loop_acc:
  "shapes_loop c (h @ html) shapes =
     (case shapes_loop c html shapes of Inl e \<Rightarrow> Inl e | Inr y \<Rightarrow> Inr (h @ y))"
proof (induction shapes arbitrary: html)
  case Nil
  show ?case by simp
next
  case (Cons shape shapes)
  show ?case
  proof (cases "txBody_of shape")
    case None
    with Cons show ?thesis by simp
  next
    case (Some txBody)
    have acc: \<open>paragraphs_loop c (h @ html @ ''<div class="shape">'') (elements txBody ''a:p'') =
       (case paragraphs_loop c (html @ ''<div class="shape">'') (elements txBody ''a:p'') of
          Inl e \<Rightarrow> Inl e | Inr y \<Rightarrow> Inr (h @ y))\<close>
      by (rule paragraphs_loop_acc)
    show ?thesis
    proof (cases \<open>paragraphs_loop c (html @ ''<div class="shape">'') (elements txBody ''a:p'')\<close>)
      case (Inl e)
      with acc Some show ?thesis by simp
    next
      case (Inr y)
      with acc Some show ?thesis
        using Cons [of "y @ ''</div>''"] by simp
    qed
  qed
qed

lemma shapes_loop_from_empty:
  "shapes_loop c html shapes =
     (case shapes_loop c [] shapes of Inl e \<Rightarrow> Inl e | Inr y \<Rightarrow> Inr (html @ y))"
  using shapes_loop_acc [of c html "[]" shapes] by simp

lemma shapes_loop_append:
  "shapes_loop c html (xs @ ys) =
     (case shapes_loop c html xs of Inl e \<Rightarrow> Inl e | Inr html1 \<Rightarrow> shapes_loop c html1 ys)"
proof (induction xs arbitrary: html)
  case Nil
  show ?case by simp
next
  case (Cons shape xs)
  show ?case
  proof (cases "txBody_of shape")
    case None
    with Cons show ?thesis by simp
  next
    case (Some txBody)
    then show ?thesis
      using Cons
      by (cases \<open>paragraphs_loop c (html @ ''<div class="shape">'') (elements txBody ''a:p'')\<close>)
        simp_all
  qed
qed

lemma convertPicture_acc:
  "fst (convertPicture c s f pic (html, w)) =
     (case fst (convertPicture c s f pic ([], w)) of Inl e \<Rightarrow> Inl e | Inr y \<Rightarrow> Inr (html @ y))"
  by (simp add: convertPicture_def split: option.splits prod.splits sum.splits)

lemma convertPicture_snd:
  "snd (convertPicture c s f pic (html, w)) = snd (convertPicture c s f pic (html', w))"
  by (simp add: convertPicture_def split: option.splits prod.splits sum.splits)

lemma pictures_loop_acc:
  "fst (pictures_loop c s f pics (html, w)) =
     (case fst (pictures_loop c s f pics ([], w)) of Inl e \<Rightarrow> Inl e | Inr y \<Rightarrow> Inr (html @ y))"
proof (induction pics arbitrary: html w)
  case Nil
  show ?case by simp
next
  case (Cons pic pics)
  obtain r1 w1 where a: "convertPicture c s f pic (html, w) = (r1, w1)"
    by (cases "convertPicture c s f pic (html, w)")
  obtain r2 w2 where b: "convertPicture c s f pic ([], w) = (r2, w2)"
    by (cases "convertPicture c s f pic ([], w)")
  have w: "w1 = w2"
    using convertPicture_snd [of c s f pic html w "[]"] a b by simp
  have r: "r1 = (case r2 of Inl e \<Rightarrow> Inl e | Inr y \<Rightarrow> Inr (html @ y))"
    using convertPicture_acc [of c s f pic html w] a b by simp
  show ?case
  proof (cases r2)
    case (Inl e)
    with a b r show ?thesis by simp
  next
    case (Inr y)
    have "fst (pictures_loop c s f pics (html @ y, w2)) =
            (case fst (pictures_loop c s f pics ([], w2)) of
               Inl e \<Rightarrow> Inl e | Inr z \<Rightarrow> Inr (html @ y @ z))"
      using Cons [of "html @ y" w2] by (simp split: sum.splits)
    moreover have "fst (pictures_loop c s f pics (y, w2)) =
            (case fst (pictures_loop c s f pics ([], w2)) of
               Inl e \<Rightarrow> Inl e | Inr z \<Rightarrow> Inr (y @ z))"
      by (rule Cons)
    ultimately show ?thesis
      using a b r w Inr
      by (cases "fst (pictures_loop c s f pics ([], w2))") simp_all
  qed
qed

lemma tree_elements:
  "elements (tree_node shapes pics) ''p:sp'' = shapes"
  "elements (tree_node shapes pics) ''p:pic'' = pics"
  by (simp_all add: elements_def tree_node_def)

lemma slide_doc_tree:
  "slide_tree \<lparr>slide_file = f, content = slide_doc shapes pics\<rparr> = Some (tree_node shapes pics)"
  by (simp add: slide_tree_def slide_doc_def spTree_of_def tree_node_def)

lemma shape_body: "txBody_of (shape_node ps) = Some (body_node ps)"
  by (simp add: txBody_of_def shape_node_def body_node_def)

lemma preserved_shape_body: "txBody_of (preserved_shape t) = Some (preserved_body t)"
  by (simp add: txBody_of_def preserved_shape_def preserved_body_def)

lemma plain_node: "plain_run (run_node t)" "run_chars (run_node t) = t"
  by (simp_all add: plain_run_def run_chars_def run_node_def)

lemma preserved_not_plain:
  "\<not> plain_run (preserved_run t)" "run_chars (preserved_run t) = t"
  by (simp_all add: plain_run_def run_chars_def preserved_run_def)

lemma preserved_shapes:
  \<open>shapes_loop c html [preserved_shape t] =
     (case objectToString c of
        None \<Rightarrow> Inl TypeError
      | Some str \<Rightarrow>
          Inr (html @ ''<div class="shape"><p><span>'' @ str @ ''</span></p></div>''))\<close>
  by (simp add: preserved_shape_def preserved_body_def preserved_run_def txBody_of_def elements_def run_text_def
      split: option.splits)

lemma strict_simps: "objectToString strict = None"
  by (simp add: strict_def calm_def)

text \<open>
  Claim C6, as stated, fails. A text shape inside a group is not rendered at all: only the
  \<^verbatim>\<open>p:sp\<close> children of the shape tree are read, so a slide whose text shape
  \<^verbatim>\<open>[["Hello"],["World"]]\<close> is grouped gives an empty container. And a run whose \<^verbatim>\<open>a:t\<close>
  has an attribute gets a span that holds \<^verbatim>\<open>[object Object]\<close>, not its text \<^verbatim>\<open>Hello\<close>; with
  a parser whose objects have no prototype the slide fails with a \<^verbatim>\<open>TypeError\<close>.
\<close>

theorem grouped_text_shape_is_not_rendered:
  \<open>fst (convertSlideToHTML demo album world0
          \<lparr>slide_file = ''ppt/slides/slide1.xml'',
            content = grouped_doc (shape_node [[''Hello''], [''World'']])\<rparr>) =
     Inr ''<div class="slide"><div class="slide-content"></div></div>'' \<and>
   spec_text_shape (body_node [[''Hello''], [''World'']]) =
     ''<div class="shape"><p><span>Hello</span></p><p><span>World</span></p></div>'' \<and>
   fst (convertSlideToHTML demo album world0
          \<lparr>slide_file = ''ppt/slides/slide1.xml'',
            content = slide_doc [preserved_shape ''Hello''] []\<rparr>) =
     Inr ''<div class="slide"><div class="slide-content"><div class="shape"><p><span>[object Object]</span></p></div></div></div>'' \<and>
   fst (convertSlideToHTML strict album world0
          \<lparr>slide_file = ''ppt/slides/slide1.xml'',
            content = slide_doc [preserved_shape ''Hello''] []\<rparr>) = Inl TypeError \<and>
   spec_text_shape (preserved_body ''Hello'') =
     ''<div class="shape"><p><span>Hello</span></p></div>''\<close>
proof -
  have \<open>fst (convertSlideToHTML demo album world0
          \<lparr>slide_file = ''ppt/slides/slide1.xml'',
            content = grouped_doc (shape_node [[''Hello''], [''World'']])\<rparr>) =
     Inr ''<div class="slide"><div class="slide-content"></div></div>''\<close>
    by (simp add: convertSlideToHTML_def slide_tree_def grouped_doc_def spTree_of_def
        render_tree_def elements_def)
  moreover have
    \<open>spec_text_shape (body_node [[''Hello''], [''World'']]) =
     ''<div class="shape"><p><span>Hello</span></p><p><span>World</span></p></div>''\<close>
    by (simp add: spec_text_shape_def text_shape_def text_paragraph_def text_run_def
        elements_def body_node_def paragraph_node_def plain_node)
  moreover have \<open>fst (convertSlideToHTML demo album world0
          \<lparr>slide_file = ''ppt/slides/slide1.xml'',
            content = slide_doc [preserved_shape ''Hello''] []\<rparr>) =
     Inr ''<div class="slide"><div class="slide-content"><div class="shape"><p><span>[object Object]</span></p></div></div></div>''\<close>
    by (simp add: convertSlideToHTML_def slide_doc_tree render_tree_def tree_elements
        preserved_shapes demo_simps del: shapes_loop.simps)
  moreover have \<open>fst (convertSlideToHTML strict album world0
          \<lparr>slide_file = ''ppt/slides/slide1.xml'',
            content = slide_doc [preserved_shape ''Hello''] []\<rparr>) = Inl TypeError\<close>
    by (simp add: convertSlideToHTML_def slide_doc_tree render_tree_def tree_elements
        preserved_shapes strict_simps del: shapes_loop.simps)
  moreover have
    \<open>spec_text_shape (preserved_body ''Hello'') =
     ''<div class="shape"><p><span>Hello</span></p></div>''\<close>
    by (simp add: spec_text_shape_def text_shape_def text_paragraph_def text_run_def
        elements_def preserved_body_def preserved_not_plain)
  ultimately show ?thesis
    by (intro conjI)
qed

lemma text_shape_in_place:
  assumes tree: "slide_tree slide = Some spTree"
    and shapes: "elements spTree ''p:sp'' = before @ shape # after"
    and body: "txBody_of shape = Some txBody"
    and pre: "shapes_loop c [] before = Inr pre"
    and post: "shapes_loop c [] after = Inr post"
    and pics: "fst (pictures_loop c s (slide_file slide) (elements spTree ''p:pic'') ([], w)) =
                 Inr pics"
    and this_shape: "\<And>html. paragraphs_loop c html (elements txBody ''a:p'') =
                 Inr (html @ concat (map (text_paragraph text_of) (elements txBody ''a:p'')))"
  shows "fst (convertSlideToHTML c s w slide) =
           Inr (container (pre @ text_shape text_of txBody @ post @ pics))"
proof -
  let ?open = \<open>''<div class="slide"><div class="slide-content">''\<close>
  have a: "shapes_loop c ?open before = Inr (?open @ pre)"
    using shapes_loop_from_empty [of c ?open before] pre by simp
  have b: "shapes_loop c (?open @ pre) [shape] = Inr (?open @ pre @ text_shape text_of txBody)"
    using body this_shape by (simp add: text_shape_def)
  have c: "shapes_loop c (?open @ pre @ text_shape text_of txBody) after =
             Inr (?open @ pre @ text_shape text_of txBody @ post)"
    using shapes_loop_acc [of c "?open @ pre @ text_shape text_of txBody" "[]" after] post
    by simp
  have "shapes_loop c ?open (before @ [shape] @ after) =
          Inr (?open @ pre @ text_shape text_of txBody @ post)"
    by (simp only: shapes_loop_append a b c sum.case)
  then have d: "shapes_loop c ?open (elements spTree ''p:sp'') =
          Inr (?open @ pre @ text_shape text_of txBody @ post)"
    using shapes by simp
  have e: "fst (pictures_loop c s (slide_file slide) (elements spTree ''p:pic'')
                  (?open @ pre @ text_shape text_of txBody @ post, w)) =
           Inr (?open @ pre @ text_shape text_of txBody @ post @ pics)"
    using pictures_loop_acc [of c s "slide_file slide" "elements spTree ''p:pic''"
        "?open @ pre @ text_shape text_of txBody @ post" w] pics
    by simp
  have "fst (convertSlideToHTML c s w slide) =
        fst (render_tree c s w (slide_file slide) (elements spTree ''p:sp'')
               (elements spTree ''p:pic''))"
    using tree by (simp add: convertSlideToHTML_def)
  also have "\<dots> = Inr ((?open @ pre @ text_shape text_of txBody @ post @ pics) @ ''</div></div>'')"
    by (simp only: render_tree_fst d e sum.case)
  finally show ?thesis
    by (simp add: container_def)
qed

text \<open>
  Claim C6, amended. Take a text shape that is a child of the slide's shape tree itself
  and whose \<^verbatim>\<open>a:t\<close> elements have no attributes, on a slide whose other text shapes and
  whose pictures render. The slide fragment holds, at the place of the shape among the text
  shapes, the rendering of the specification: one paragraph container per paragraph and one
  span per run, each span holding the text of its run, in document order.
\<close>

theorem direct_text_shape_in_document_order:
  assumes "slide_tree slide = Some spTree"
    and "elements spTree ''p:sp'' = before @ shape # after"
    and "txBody_of shape = Some txBody"
    and "list_all plain_paragraph (elements txBody ''a:p'')"
    and "shapes_loop c [] before = Inr pre"
    and "shapes_loop c [] after = Inr post"
    and "fst (pictures_loop c s (slide_file slide) (elements spTree ''p:pic'') ([], w)) =
           Inr pics"
  shows "fst (convertSlideToHTML c s w slide) =
           Inr (container (pre @ spec_text_shape txBody @ post @ pics))"
  using text_shape_in_place [OF assms(1-3) assms(5-7), of run_chars]
  by (simp add: paragraphs_loop_plain [OF assms(4)] spec_text_shape_def)

theorem direct_text_shape_in_document_order_witness:
  \<open>slide_tree mixed_slide =
     Some (tree_node
             [shape_node [[''a'']], shape_node [[''Hello''], [''World'']], preserved_shape ''b'']
             album_pictures) \<and>
   elements (tree_node
               [shape_node [[''a'']], shape_node [[''Hello''], [''World'']], preserved_shape ''b'']
               album_pictures) ''p:sp'' =
     [shape_node [[''a'']]] @ shape_node [[''Hello''], [''World'']] # [preserved_shape ''b''] \<and>
   txBody_of (shape_node [[''Hello''], [''World'']]) = Some (body_node [[''Hello''], [''World'']]) \<and>
   list_all plain_paragraph (elements (body_node [[''Hello''], [''World'']]) ''a:p'') \<and>
   shapes_loop calm [] [shape_node [[''a'']]] = Inr ''<div class="shape"><p><span>a</span></p></div>'' \<and>
   shapes_loop calm [] [preserved_shape ''b''] =
     Inr ''<div class="shape"><p><span>[object Object]</span></p></div>'' \<and>
   fst (pictures_loop calm album (slide_file mixed_slide)
          (elements (tree_node
               [shape_node [[''a'']], shape_node [[''Hello''], [''World'']], preserved_shape ''b'']
               album_pictures) ''p:pic'') ([], world0)) = Inr (picture_html ''EXIT'') \<and>
   spec_text_shape (body_node [[''Hello''], [''World'']]) =
     ''<div class="shape"><p><span>Hello</span></p><p><span>World</span></p></div>'' \<and>
   fst (convertSlideToHTML calm album world0 mixed_slide) =
     Inr (container
            (''<div class="shape"><p><span>a</span></p></div>'' @
             ''<div class="shape"><p><span>Hello</span></p><p><span>World</span></p></div>'' @
             ''<div class="shape"><p><span>[object Object]</span></p></div>'' @
             picture_html ''EXIT''))\<close>
proof -
  let ?shapes =
    "[shape_node [[''a'']], shape_node [[''Hello''], [''World'']], preserved_shape ''b'']"
  have h1: "slide_tree mixed_slide = Some (tree_node ?shapes album_pictures)"
    by (simp add: mixed_slide_def slide_doc_tree)
  have h2: "elements (tree_node ?shapes album_pictures) ''p:sp'' =
      [shape_node [[''a'']]] @ shape_node [[''Hello''], [''World'']] # [preserved_shape ''b'']"
    by (simp add: tree_elements)
  have h3: "txBody_of (shape_node [[''Hello''], [''World'']]) =
      Some (body_node [[''Hello''], [''World'']])"
    by (rule shape_body)
  have h4: "list_all plain_paragraph (elements (body_node [[''Hello''], [''World'']]) ''a:p'')"
    by (simp add: elements_def body_node_def paragraph_node_def plain_paragraph_def plain_node)
  have h5: \<open>shapes_loop calm [] [shape_node [[''a'']]] =
      Inr ''<div class="shape"><p><span>a</span></p></div>''\<close>
    by (simp add: demo_shape del: shapes_loop.simps)
  have h6: \<open>shapes_loop calm [] [preserved_shape ''b''] =
      Inr ''<div class="shape"><p><span>[object Object]</span></p></div>''\<close>
    by (simp add: preserved_shapes calm_simps demo_simps del: shapes_loop.simps)
  have h7: "fst (pictures_loop calm album (slide_file mixed_slide)
      (elements (tree_node ?shapes album_pictures) ''p:pic'') ([], world0)) =
      Inr (picture_html ''EXIT'')"
    using album_pictures_calm [of "[]" world0]
    by (simp add: tree_elements mixed_slide_def)
  have s1: \<open>spec_text_shape (body_node [[''Hello''], [''World'']]) =
      ''<div class="shape"><p><span>Hello</span></p><p><span>World</span></p></div>''\<close>
    by (simp add: spec_text_shape_def text_shape_def text_paragraph_def text_run_def
        elements_def body_node_def paragraph_node_def plain_node)
  show ?thesis
    using h1 h2 h3 h4 h5 h6 h7 s1
      direct_text_shape_in_document_order [OF h1 h2 h3 h4 h5 h6 h7]
    by (simp only: simp_thms)
qed

subsection \<open>Runs whose text element has attributes\<close>

text \<open>
  A text shape, child of the shape tree, on a slide whose other text shapes and whose
  pictures render, read with a parser whose element objects print as \<open>str\<close>. The fragment
  has the layout of the shape, one paragraph container per paragraph and one span per run
  in document order; the span of a run whose \<^verbatim>\<open>a:t\<close> has attributes holds \<open>str\<close> in place
  of the text of the run.
\<close>

theorem attributed_run_prints_the_object:
  assumes "slide_tree slide = Some spTree"
    and "elements spTree ''p:sp'' = before @ shape # after"
    and "txBody_of shape = Some txBody"
    and "objectToString c = Some str"
    and "shapes_loop c [] before = Inr pre"
    and "shapes_loop c [] after = Inr post"
    and "fst (pictures_loop c s (slide_file slide) (elements spTree ''p:pic'') ([], w)) =
           Inr pics"
  shows "fst (convertSlideToHTML c s w slide) =
           Inr (container (pre @ text_shape (printed_text str) txBody @ post @ pics))"
  using text_shape_in_place [OF assms(1-3) assms(5-7), of "printed_text str"]
  by (simp add: paragraphs_loop_printed [OF assms(4)])

theorem attributed_run_prints_the_object_witness:
  \<open>slide_tree mixed_slide =
     Some (tree_node
             [shape_node [[''a'']], shape_node [[''Hello''], [''World'']], preserved_shape ''b'']
             album_pictures) \<and>
   elements (tree_node
               [shape_node [[''a'']], shape_node [[''Hello''], [''World'']], preserved_shape ''b'']
               album_pictures) ''p:sp'' =
     [shape_node [[''a'']], shape_node [[''Hello''], [''World'']]] @ preserved_shape ''b'' # [] \<and>
   txBody_of (preserved_shape ''b'') = Some (preserved_body ''b'') \<and>
   objectToString calm = Some ''[object Object]'' \<and>
   shapes_loop calm [] [shape_node [[''a'']], shape_node [[''Hello''], [''World'']]] =
     Inr ''<div class="shape"><p><span>a</span></p></div><div class="shape"><p><span>Hello</span></p><p><span>World</span></p></div>'' \<and>
   shapes_loop calm [] [] = Inr [] \<and>
   fst (pictures_loop calm album (slide_file mixed_slide)
          (elements (tree_node
               [shape_node [[''a'']], shape_node [[''Hello''], [''World'']], preserved_shape ''b'']
               album_pictures) ''p:pic'') ([], world0)) = Inr (picture_html ''EXIT'') \<and>
   text_shape (printed_text ''[object Object]'') (preserved_body ''b'') =
     ''<div class="shape"><p><span>[object Object]</span></p></div>'' \<and>
   spec_text_shape (preserved_body ''b'') = ''<div class="shape"><p><span>b</span></p></div>'' \<and>
   fst (convertSlideToHTML calm album world0 mixed_slide) =
     Inr (container
            (''<div class="shape"><p><span>a</span></p></div><div class="shape"><p><span>Hello</span></p><p><span>World</span></p></div>'' @
             ''<div class="shape"><p><span>[object Object]</span></p></div>'' @
             [] @ picture_html ''EXIT''))\<close>
proof -
  let ?shapes =
    "[shape_node [[''a'']], shape_node [[''Hello''], [''World'']], preserved_shape ''b'']"
  have h1: "slide_tree mixed_slide = Some (tree_node ?shapes album_pictures)"
    by (simp add: mixed_slide_def slide_doc_tree)
  have h2: "elements (tree_node ?shapes album_pictures) ''p:sp'' =
      [shape_node [[''a'']], shape_node [[''Hello''], [''World'']]] @ preserved_shape ''b'' # []"
    by (simp add: tree_elements)
  have h3: "txBody_of (preserved_shape ''b'') = Some (preserved_body ''b'')"
    by (rule preserved_shape_body)
  have h4: "objectToString calm = Some ''[object Object]''"
    by (simp add: calm_simps demo_simps)
  have h5: \<open>shapes_loop calm [] [shape_node [[''a'']], shape_node [[''Hello''], [''World'']]] =
     Inr ''<div class="shape"><p><span>a</span></p></div><div class="shape"><p><span>Hello</span></p><p><span>World</span></p></div>''\<close>
    by (simp add: shape_node_def body_node_def paragraph_node_def run_node_def txBody_of_def
        elements_def run_text_def)
  have h6: "shapes_loop calm [] [] = Inr []"
    by simp
  have h7: "fst (pictures_loop calm album (slide_file mixed_slide)
      (elements (tree_node ?shapes album_pictures) ''p:pic'') ([], world0)) =
      Inr (picture_html ''EXIT'')"
    using album_pictures_calm [of "[]" world0]
    by (simp add: tree_elements mixed_slide_def)
  have s1: \<open>text_shape (printed_text ''[object Object]'') (preserved_body ''b'') =
      ''<div class="shape"><p><span>[object Object]</span></p></div>''\<close>
    by (simp add: text_shape_def text_paragraph_def text_run_def printed_text_def
        elements_def preserved_body_def preserved_not_plain)
  have s2: \<open>spec_text_shape (preserved_body ''b'') =
      ''<div class="shape"><p><span>b</span></p></div>''\<close>
    by (simp add: spec_text_shape_def text_shape_def text_paragraph_def text_run_def
        elements_def preserved_body_def preserved_not_plain)
  show ?thesis
    using h1 h2 h3 h4 h5 h6 h7 s1 s2
      attributed_run_prints_the_object [OF h1 h2 h3 h4 h5 h6 h7]
    by (simp only: simp_thms)
qed

text \<open>
  A text shape with a run whose \<^verbatim>\<open>a:t\<close> has attributes, read with a parser whose element
  objects have no prototype: the template literal throws, and the slide ends with the
  \<^verbatim>\<open>TypeError\<close>, whatever follows the shape.
\<close>

theorem unprintable_run_fails_the_slide:
  assumes "slide_tree slide = Some spTree"
    and "elements spTree ''p:sp'' = before @ shape # after"
    and "txBody_of shape = Some txBody"
    and "shapes_loop c [] before = Inr pre"
    and "objectToString c = None"
    and "\<not> list_all plain_paragraph (elements txBody ''a:p'')"
  shows "fst (convertSlideToHTML c s w slide) = Inl TypeError"
proof -
  let ?open = \<open>''<div class="slide"><div class="slide-content">''\<close>
  have a: "shapes_loop c ?open before = Inr (?open @ pre)"
    using shapes_loop_from_empty [of c ?open before] assms(4) by simp
  have b: "shapes_loop c (?open @ pre) (shape # after) = Inl TypeError"
    using assms(3) paragraphs_loop_unprintable [OF assms(5) assms(6)] by simp
  have "shapes_loop c ?open (before @ shape # after) = Inl TypeError"
    by (simp only: shapes_loop_append a b sum.case)
  then have "shapes_loop c ?open (elements spTree ''p:sp'') = Inl TypeError"
    using assms(2) by simp
  then have "fst (render_tree c s w (slide_file slide) (elements spTree ''p:sp'')
                    (elements spTree ''p:pic'')) = Inl TypeError"
    by (simp only: render_tree_fst sum.case)
  then show ?thesis
    using assms(1) by (simp add: convertSlideToHTML_def)
qed

theorem unprintable_run_fails_the_slide_witness:
  \<open>slide_tree mixed_slide =
     Some (tree_node
             [shape_node [[''a'']], shape_node [[''Hello''], [''World'']], preserved_shape ''b'']
             album_pictures) \<and>
   elements (tree_node
               [shape_node [[''a'']], shape_node [[''Hello''], [''World'']], preserved_shape ''b'']
               album_pictures) ''p:sp'' =
     [shape_node [[''a'']], shape_node [[''Hello''], [''World'']]] @ preserved_shape ''b'' # [] \<and>
   txBody_of (preserved_shape ''b'') = Some (preserved_body ''b'') \<and>
   shapes_loop strict [] [shape_node [[''a'']], shape_node [[''Hello''], [''World'']]] =
     Inr ''<div class="shape"><p><span>a</span></p></div><div class="shape"><p><span>Hello</span></p><p><span>World</span></p></div>'' \<and>
   objectToString strict = None \<and>
   \<not> list_all plain_paragraph (elements (preserved_body ''b'') ''a:p'') \<and>
   fst (convertSlideToHTML strict album world0 mixed_slide) = Inl TypeError\<close>
proof -
  let ?shapes =
    "[shape_node [[''a'']], shape_node [[''Hello''], [''World'']], preserved_shape ''b'']"
  have h1: "slide_tree mixed_slide = Some (tree_node ?shapes album_pictures)"
    by (simp add: mixed_slide_def slide_doc_tree)
  have h2: "elements (tree_node ?shapes album_pictures) ''p:sp'' =
      [shape_node [[''a'']], shape_node [[''Hello''], [''World'']]] @ preserved_shape ''b'' # []"
    by (simp add: tree_elements)
  have h3: "txBody_of (preserved_shape ''b'') = Some (preserved_body ''b'')"
    by (rule preserved_shape_body)
  have h4: \<open>shapes_loop strict [] [shape_node [[''a'']], shape_node [[''Hello''], [''World'']]] =
     Inr ''<div class="shape"><p><span>a</span></p></div><div class="shape"><p><span>Hello</span></p><p><span>World</span></p></div>''\<close>
    by (simp add: shape_node_def body_node_def paragraph_node_def run_node_def txBody_of_def
        elements_def run_text_def)
  have h5: "objectToString strict = None"
    by (rule strict_simps)
  have h6: "\<not> list_all plain_paragraph (elements (preserved_body ''b'') ''a:p'')"
    by (simp add: elements_def preserved_body_def plain_paragraph_def preserved_not_plain)
  show ?thesis
    using h1 h2 h3 h4 h5 h6 unprintable_run_fails_the_slide [OF h1 h2 h3 h4 h5 h6]
    by (simp only: simp_thms)
qed

subsection \<open>The public operation on the example packages\<close>

lemma deck_names:
  "sort (filter is_slide_name (zip_names deck_zip)) =
     [''ppt/slides/slide10.xml'', ''ppt/slides/slide2.xml'']"
  by (simp add: is_slide_name_def zip_names_def deck_zip_def string_defs)

lemma deck_parsed:
  "parse_loop demo deck_zip [''ppt/slides/slide10.xml'', ''ppt/slides/slide2.xml''] [] =
     [\<lparr>slide_file = ''ppt/slides/slide10.xml'', content = slide_doc [shape_node [[''ten'']]] []\<rparr>,
      \<lparr>slide_file = ''ppt/slides/slide2.xml'', content = slide_doc [shape_node [[''two'']]] []\<rparr>]"
  by (simp add: zip_file_def deck_zip_def demo_simps demo_markup_def string_defs)

lemma deck_html:
  \<open>fst (toHTML demo opts world0 (PPTXInHTMLOut ''deck'')) =
     Inr (document generateStyles
       (''<div class="slide"><div class="slide-content"><div class="shape"><p><span>ten</span></p></div></div></div>'' @
        ''<div class="slide"><div class="slide-content"><div class="shape"><p><span>two</span></p></div></div></div>''))\<close>
proof -
  have "fst (toHTML demo opts world0 (PPTXInHTMLOut ''deck'')) =
        fst (generateHTML demo ((PPTXInHTMLOut ''deck'')\<lparr>zipf := Some deck_zip\<rparr>) world0
              (parse_loop demo deck_zip (sort (filter is_slide_name (zip_names deck_zip))) []))"
    by (simp add: toHTML_fst PPTXInHTMLOut_def demo_simps)
  also have "\<dots> =
        fst (generateHTML demo ((PPTXInHTMLOut ''deck'')\<lparr>zipf := Some deck_zip\<rparr>) world0
              [\<lparr>slide_file = ''ppt/slides/slide10.xml'', content = slide_doc [shape_node [[''ten'']]] []\<rparr>,
               \<lparr>slide_file = ''ppt/slides/slide2.xml'', content = slide_doc [shape_node [[''two'']]] []\<rparr>])"
    by (simp only: deck_names deck_parsed)
  also have \<open>\<dots> =
     Inr (document generateStyles
       (''<div class="slide"><div class="slide-content"><div class="shape"><p><span>ten</span></p></div></div></div>'' @
        ''<div class="slide"><div class="slide-content"><div class="shape"><p><span>two</span></p></div></div></div>''))\<close>
    by (simp add: generateHTML_def demo_text_slide)
  finally show ?thesis .
qed

lemma bare_names:
  "sort (filter is_slide_name (zip_names bare_zip)) = [''ppt/slides/slide1.xml'']"
  by (simp add: is_slide_name_def zip_names_def bare_zip_def string_defs)

lemma bare_parsed:
  "parse_loop demo bare_zip [''ppt/slides/slide1.xml''] [] =
     [\<lparr>slide_file = ''ppt/slides/slide1.xml'', content = slide_doc [shape_node [[''two'']]] []\<rparr>]"
  by (simp add: zip_file_def bare_zip_def demo_simps demo_markup_def string_defs)

lemma bare_html:
  \<open>fst (toHTML demo opts world0 (PPTXInHTMLOut ''bare'')) =
     Inr (document generateStyles
       ''<div class="slide"><div class="slide-content"><div class="shape"><p><span>two</span></p></div></div></div>'')\<close>
proof -
  have "fst (toHTML demo opts world0 (PPTXInHTMLOut ''bare'')) =
        fst (generateHTML demo ((PPTXInHTMLOut ''bare'')\<lparr>zipf := Some bare_zip\<rparr>) world0
              (parse_loop demo bare_zip (sort (filter is_slide_name (zip_names bare_zip))) []))"
    by (simp add: toHTML_fst PPTXInHTMLOut_def demo_simps)
  also have "\<dots> =
        fst (generateHTML demo ((PPTXInHTMLOut ''bare'')\<lparr>zipf := Some bare_zip\<rparr>) world0
              [\<lparr>slide_file = ''ppt/slides/slide1.xml'', content = slide_doc [shape_node [[''two'']]] []\<rparr>])"
    by (simp only: bare_names bare_parsed)
  also have \<open>\<dots> =
     Inr (document generateStyles
       ''<div class="slide"><div class="slide-content"><div class="shape"><p><span>two</span></p></div></div></div>'')\<close>
    by (simp add: generateHTML_def demo_text_slide)
  finally show ?thesis .
qed

lemma hollow_html:
  "fst (toHTML demo opts world0 (PPTXInHTMLOut ''hollow'')) = Inr (document generateStyles [])"
  by (simp add: toHTML_fst PPTXInHTMLOut_def demo_simps is_slide_name_def zip_names_def
      hollow_zip_def string_defs generateHTML_def)

text \<open>
  Claim C1 on the deck. The deck passes \<^verbatim>\<open>validatePPTX\<close>, and its slide parts are
  \<^verbatim>\<open>slide2.xml\<close> and \<^verbatim>\<open>slide10.xml\<close>. The document that \<^verbatim>\<open>toHTML\<close> returns has the two
  slide containers, with the tenth slide before the second: \<^verbatim>\<open>parseSlides\<close> sorts the
  names as strings.
\<close>

theorem deck_renders_tenth_slide_first:
  \<open>load demo (PPTXInHTMLOut ''deck'') =
     Inr \<lparr>pptxBuffer = ''deck'', zipf = Some deck_zip, slides = [],
          slideFiles = Some [''ppt/slides/slide2.xml'', ''ppt/slides/slide10.xml'']\<rparr> \<and>
   fst (toHTML demo None world0 (PPTXInHTMLOut ''deck'')) =
     Inr (document generateStyles
       (''<div class="slide"><div class="slide-content"><div class="shape"><p><span>ten</span></p></div></div></div>'' @
        ''<div class="slide"><div class="slide-content"><div class="shape"><p><span>two</span></p></div></div></div>''))\<close>
proof -
  have "load demo (PPTXInHTMLOut ''deck'') =
     Inr \<lparr>pptxBuffer = ''deck'', zipf = Some deck_zip, slides = [],
          slideFiles = Some [''ppt/slides/slide2.xml'', ''ppt/slides/slide10.xml'']\<rparr>"
    by (simp add: load_def initialize_def validatePPTX_def requiredFiles_def PPTXInHTMLOut_def
        demo_simps zip_names_def deck_zip_def string_defs)
  with deck_html [of None] show ?thesis by simp
qed

text \<open>
  Claim C2 on two archives. One has a slide and neither required entry, the other has
  both required entries and no slide. \<^verbatim>\<open>load\<close> rejects each with the error that names
  what is missing; \<^verbatim>\<open>toHTML\<close>, which calls \<^verbatim>\<open>initialize\<close> and never \<^verbatim>\<open>validatePPTX\<close>,
  returns a document for each.
\<close>

theorem toHTML_skips_validation:
  \<open>load demo (PPTXInHTMLOut ''bare'') =
     Inl (Error ''Invalid PPTX file: missing ppt/presentation.xml'') \<and>
   fst (toHTML demo None world0 (PPTXInHTMLOut ''bare'')) =
     Inr (document generateStyles
       ''<div class="slide"><div class="slide-content"><div class="shape"><p><span>two</span></p></div></div></div>'') \<and>
   load demo (PPTXInHTMLOut ''hollow'') = Inl (Error ''Invalid PPTX file: no slides found'') \<and>
   fst (toHTML demo None world0 (PPTXInHTMLOut ''hollow'')) = Inr (document generateStyles [])\<close>
proof -
  have "load demo (PPTXInHTMLOut ''bare'') =
          Inl (Error ''Invalid PPTX file: missing ppt/presentation.xml'')"
    by (simp add: load_def initialize_def validatePPTX_def requiredFiles_def PPTXInHTMLOut_def
        demo_simps zip_names_def bare_zip_def)
  moreover have "load demo (PPTXInHTMLOut ''hollow'') =
          Inl (Error ''Invalid PPTX file: no slides found'')"
    by (simp add: load_def initialize_def validatePPTX_def requiredFiles_def PPTXInHTMLOut_def
        demo_simps zip_names_def hollow_zip_def string_defs)
  ultimately show ?thesis
    using bare_html [of None] hollow_html [of None] by simp
qed

text \<open>
  Claim C3 on the deck. Called with \<^verbatim>\<open>{ includeStyles: false }\<close>, \<^verbatim>\<open>toHTML\<close> returns the
  document with the stylesheet block of \<^verbatim>\<open>generateStyles\<close> in its head, the same document
  as without the option.
\<close>

theorem toHTML_ignores_includeStyles:
  \<open>fst (toHTML demo (Some \<lparr>includeStyles = False\<rparr>) world0 (PPTXInHTMLOut ''deck'')) =
     fst (toHTML demo None world0 (PPTXInHTMLOut ''deck'')) \<and>
   fst (toHTML demo (Some \<lparr>includeStyles = False\<rparr>) world0 (PPTXInHTMLOut ''deck'')) =
     Inr (join_lines
       [''<!DOCTYPE html>'',
        ''<html>'',
        ''<head>'',
        ''  <meta charset="UTF-8">'',
        ''  <meta name="viewport" content="width=device-width, initial-scale=1.0">'',
        ''  <title>PowerPoint Presentation</title>'',
        ''  '' @ generateStyles,
        ''</head>'',
        ''<body><div class="slide"><div class="slide-content"><div class="shape"><p><span>ten</span></p></div></div></div><div class="slide"><div class="slide-content"><div class="shape"><p><span>two</span></p></div></div></div></body>'',
        ''</html>'']) \<and>
   take 14 generateStyles = nl @ ''      <style>''\<close>
proof -
  have "take 14 generateStyles = nl @ ''      <style>''"
    by (simp add: generateStyles_def)
  then show ?thesis
    using deck_html [of "Some \<lparr>includeStyles = False\<rparr>"] deck_html [of None]
    by (simp add: document_def)
qed

subsection \<open>Namespace prefixes\<close>

lemma colon_not_lower: "\<not> is_lower CHR '':''"
  by (simp add: is_lower_def lower_letters_def)

lemma colon_not_upper: "map_of (zip upper_letters lower_letters) CHR '':'' = None"
  by (simp add: upper_letters_def lower_letters_def)

lemma lower_not_upper: "ch \<in> set lower_letters \<Longrightarrow> ch \<notin> set upper_letters"
  by (auto simp: upper_letters_def lower_letters_def)

lemma lower_unmapped:
  assumes "is_lower ch"
  shows "map_of (zip upper_letters lower_letters) ch = None"
proof -
  have "length upper_letters = length lower_letters"
    by (simp add: upper_letters_def lower_letters_def)
  then have "map fst (zip upper_letters lower_letters) = upper_letters"
    by (rule map_fst_zip)
  then have "fst ` set (zip upper_letters lower_letters) = set upper_letters"
    by (metis set_map)
  with assms show ?thesis
    by (simp add: map_of_eq_None_iff is_lower_def lower_not_upper)
qed

lemma nameProcessor_strips:
  assumes "p \<noteq> []" and "list_all is_lower p"
  shows "nameProcessor (qname p l) = l"
proof -
  from assms(2) have all: "\<And>x. x \<in> set p \<Longrightarrow> is_lower x"
    by (simp add: list_all_iff)
  have tw: "takeWhile is_lower (p @ CHR '':'' # l) = p"
    using all colon_not_lower by (simp add: takeWhile_append2)
  have dw: "dropWhile is_lower (p @ CHR '':'' # l) = CHR '':'' # l"
    using all colon_not_lower by (simp add: dropWhile_append2)
  show ?thesis
    using assms(1) tw dw by (simp add: nameProcessor_def qname_def)
qed

lemma toLowerCase_lower: "list_all is_lower p \<Longrightarrow> toLowerCase p = p"
  by (induction p) (simp_all add: toLowerCase_def lower_unmapped)

lemma toLowerCase_qname:
  "list_all is_lower p \<Longrightarrow> toLowerCase (qname p l) = qname p (toLowerCase l)"
  using toLowerCase_lower [of p]
  by (simp add: qname_def toLowerCase_def colon_not_upper)

lemma toLowerCase_names:
  "toLowerCase (qname p l) = qname (toLowerCase p) (toLowerCase l)"
  by (simp add: qname_def toLowerCase_def colon_not_upper)

lemma lower_case_letter:
  assumes "is_letter ch"
  shows "is_lower (case map_of (zip upper_letters lower_letters) ch of None \<Rightarrow> ch | Some l \<Rightarrow> l)"
proof (cases "map_of (zip upper_letters lower_letters) ch")
  case None
  have "length upper_letters = length lower_letters"
    by (simp add: upper_letters_def lower_letters_def)
  then have "map fst (zip upper_letters lower_letters) = upper_letters"
    by (rule map_fst_zip)
  then have "fst ` set (zip upper_letters lower_letters) = set upper_letters"
    by (metis set_map)
  with None have "ch \<notin> set upper_letters"
    by (simp add: map_of_eq_None_iff)
  with assms None show ?thesis
    by (simp add: is_letter_def is_lower_def)
next
  case (Some l)
  then have "(ch, l) \<in> set (zip upper_letters lower_letters)"
    by (rule map_of_SomeD)
  then have "l \<in> set lower_letters"
    by (rule set_zip_rightD)
  with Some show ?thesis
    by (simp add: is_lower_def)
qed

lemma toLowerCase_letters: "list_all is_letter p \<Longrightarrow> list_all is_lower (toLowerCase p)"
  by (induction p) (simp_all add: toLowerCase_def lower_case_letter)

lemma toLowerCase_no_colon:
  "CHR '':'' \<notin> set name \<Longrightarrow> CHR '':'' \<notin> set (toLowerCase name)"
proof (induction name)
  case Nil
  show ?case by (simp add: toLowerCase_def)
next
  case (Cons ch name)
  have "(case map_of (zip upper_letters lower_letters) ch of None \<Rightarrow> ch | Some l \<Rightarrow> l) \<noteq> CHR '':''"
  proof (cases "map_of (zip upper_letters lower_letters) ch")
    case None
    with Cons.prems show ?thesis by auto
  next
    case (Some l)
    then have "(ch, l) \<in> set (zip upper_letters lower_letters)"
      by (rule map_of_SomeD)
    then have "is_lower l"
      unfolding is_lower_def by (rule set_zip_rightD)
    with Some colon_not_lower show ?thesis by auto
  qed
  with Cons show ?case
    by (simp add: toLowerCase_def)
qed

lemma nameProcessor_unprefixed:
  assumes "CHR '':'' \<notin> set name"
  shows "nameProcessor name = name"
proof (cases "dropWhile is_lower name")
  case Nil
  show ?thesis
    unfolding nameProcessor_def Nil by simp
next
  case (Cons ch rest)
  then have "ch \<in> set (dropWhile is_lower name)"
    by simp
  then have "ch \<in> set name"
    by (rule set_dropWhileD)
  with assms have "ch \<noteq> CHR '':''"
    by auto
  with Cons show ?thesis
    by (simp add: nameProcessor_def)
qed

text \<open>
  Claim C7 on four names. The processors remove a prefix only when it is made of the
  letters a to z: the tag names \<^verbatim>\<open>a14:sp\<close> and \<^verbatim>\<open>a:sp\<close>, which share the local name, get the
  keys \<^verbatim>\<open>a14:sp\<close> and \<^verbatim>\<open>sp\<close>, and so do the attribute names \<^verbatim>\<open>r14:embed\<close> and \<^verbatim>\<open>r:embed\<close>.
  Tags and attributes also disagree on a prefix in upper case: the tag \<^verbatim>\<open>P:Sp\<close>, lower-cased
  first, loses its prefix, and the attribute \<^verbatim>\<open>R:embed\<close> keeps it.
\<close>

theorem prefix_with_digit_is_kept:
  "tag_key (qname ''a14'' ''sp'') = ''a14:sp'' \<and> tag_key (qname ''a'' ''sp'') = ''sp'' \<and>
   tag_key (qname ''a14'' ''sp'') \<noteq> tag_key (qname ''a'' ''sp'') \<and>
   attr_key (qname ''r14'' ''embed'') = ''r14:embed'' \<and>
   attr_key (qname ''r'' ''embed'') = ''embed'' \<and>
   attr_key (qname ''r14'' ''embed'') \<noteq> attr_key (qname ''r'' ''embed'') \<and>
   tag_key (qname ''P'' ''Sp'') = ''sp'' \<and>
   attr_key (qname ''R'' ''embed'') = ''R:embed'' \<and>
   attr_key (qname ''R'' ''embed'') \<noteq> attr_key (qname ''r'' ''embed'')"
  by (simp add: tag_key_def attr_key_def qname_def nameProcessor_def toLowerCase_def
      is_lower_def lower_letters_def upper_letters_def)

text \<open>
  The names whose prefix the processors do remove. An attribute name with a prefix made
  of the letters a to z gets its local name as key. A tag name is lower-cased first, so a
  prefix made of letters of either case is removed, and the key is the local name in lower
  case. A name without a colon is its own key, in lower case for a tag. Two such names that
  share a local name therefore share a key.
\<close>

theorem letter_prefix_is_stripped:
  assumes "p \<noteq> []"
  shows "(list_all is_lower p \<longrightarrow> attr_key (qname p l) = l) \<and>
         (list_all is_letter p \<longrightarrow> tag_key (qname p l) = toLowerCase l) \<and>
         (CHR '':'' \<notin> set name \<longrightarrow> attr_key name = name \<and> tag_key name = toLowerCase name)"
proof -
  have "toLowerCase p \<noteq> []"
    using assms by (simp add: toLowerCase_def)
  then have "list_all is_letter p \<Longrightarrow> tag_key (qname p l) = toLowerCase l"
    by (simp add: tag_key_def toLowerCase_names nameProcessor_strips toLowerCase_letters)
  then show ?thesis
    using assms
    by (simp add: attr_key_def tag_key_def nameProcessor_strips nameProcessor_unprefixed
        toLowerCase_no_colon)
qed

theorem letter_prefix_is_stripped_witness:
  "''Pic'' \<noteq> [] \<and> list_all is_letter ''Pic'' \<and> CHR '':'' \<notin> set ''spTree'' \<and>
   tag_key (qname ''Pic'' ''spTree'') = ''sptree'' \<and>
   attr_key ''spTree'' = ''spTree'' \<and> tag_key ''spTree'' = ''sptree'' \<and>
   ''a'' \<noteq> [] \<and> list_all is_lower ''a'' \<and> list_all is_letter ''a'' \<and>
   attr_key (qname ''a'' ''spTree'') = ''spTree'' \<and> tag_key (qname ''a'' ''spTree'') = ''sptree''"
proof -
  have h1: "''Pic'' \<noteq> []" and h2: "list_all is_letter ''Pic''"
    and h3: "CHR '':'' \<notin> set ''spTree''"
    and h4: "''a'' \<noteq> []" and h5: "list_all is_lower ''a''" and h6: "list_all is_letter ''a''"
    by (simp_all add: is_lower_def is_letter_def lower_letters_def upper_letters_def)
  have lower: "toLowerCase ''spTree'' = ''sptree''"
    by (simp add: toLowerCase_def lower_letters_def upper_letters_def)
  show ?thesis
    using h1 h2 h3 h4 h5 h6 lower
      letter_prefix_is_stripped [OF h1, of "''spTree''" "''spTree''"]
      letter_prefix_is_stripped [OF h4, of "''spTree''" "''spTree''"]
    by (simp only: simp_thms)
qed

subsection \<open>What load accepts\<close>

text \<open>
  \<^verbatim>\<open>load\<close> on an archive that opens: it fails with the error that names the first
  missing requirement (the presentation part, the root relationships, a slide part), and
  otherwise keeps the archive and the names of its slide parts.
\<close>

theorem load_names_the_missing_entry:
  assumes "loadAsync c (pptxBuffer s) = Some z"
  shows "load c s =
     (if ''ppt/presentation.xml'' \<notin> set (zip_names z)
      then Inl (Error ''Invalid PPTX file: missing ppt/presentation.xml'')
      else if ''_rels/.rels'' \<notin> set (zip_names z)
      then Inl (Error ''Invalid PPTX file: missing _rels/.rels'')
      else if filter matches_slide_path (zip_names z) = []
      then Inl (Error ''Invalid PPTX file: no slides found'')
      else Inr (s\<lparr>zipf := Some z,
                  slideFiles := Some (filter matches_slide_path (zip_names z))\<rparr>))"
  using assms
  by (simp add: load_def initialize_def validatePPTX_def requiredFiles_def)

theorem load_names_the_missing_entry_witness:
  "loadAsync demo (pptxBuffer (PPTXInHTMLOut ''hollow'')) = Some hollow_zip \<and>
   load demo (PPTXInHTMLOut ''hollow'') = Inl (Error ''Invalid PPTX file: no slides found'')"
proof -
  have h: "loadAsync demo (pptxBuffer (PPTXInHTMLOut ''hollow'')) = Some hollow_zip"
    by (simp add: demo_simps PPTXInHTMLOut_def)
  show ?thesis
    using h load_names_the_missing_entry [OF h]
    by (simp add: zip_names_def hollow_zip_def string_defs)
qed

subsection \<open>The regular expressions\<close>

lemma dot_not_digit: "\<not> is_digit CHR ''.''"
  by (simp add: is_digit_def)

lemma digits_then_dot:
  assumes "list_all is_digit ds"
  shows "takeWhile is_digit (ds @ CHR ''.'' # r) = ds"
    and "dropWhile is_digit (ds @ CHR ''.'' # r) = CHR ''.'' # r"
  using assms dot_not_digit by (simp_all add: list_all_iff takeWhile_append2 dropWhile_append2)

lemma startsWith_iff: "startsWith s p = (\<exists>r. s = p @ r)"
proof
  assume "startsWith s p"
  then have "s = p @ drop (length p) s"
    by (metis append_take_drop_id startsWith_def)
  then show "\<exists>r. s = p @ r" ..
next
  assume "\<exists>r. s = p @ r"
  then show "startsWith s p"
    by (auto simp: startsWith_def)
qed

lemma slide_digits_here_iff:
  "(slide_digits_here s = Some ds) =
     (ds \<noteq> [] \<and> list_all is_digit ds \<and> (\<exists>post. s = ''slide'' @ ds @ ''.xml'' @ post))"
proof
  assume a: "slide_digits_here s = Some ds"
  then have sw: "startsWith s ''slide''"
    by (simp add: slide_digits_here_def split: if_splits)
  then obtain r where s: "s = ''slide'' @ r"
    by (auto simp: startsWith_iff)
  from a sw s have ds: "ds = takeWhile is_digit r" and ne: "ds \<noteq> []"
    and x: "startsWith (dropWhile is_digit r) ''.xml''"
    by (auto simp: slide_digits_here_def Let_def split: if_splits)
  from x obtain post where "dropWhile is_digit r = ''.xml'' @ post"
    by (auto simp: startsWith_iff)
  with ds have "r = ds @ ''.xml'' @ post"
    by (metis takeWhile_dropWhile_id)
  moreover have "list_all is_digit ds"
    unfolding ds by (simp add: list_all_iff) (meson set_takeWhileD)
  ultimately show "ds \<noteq> [] \<and> list_all is_digit ds \<and> (\<exists>post. s = ''slide'' @ ds @ ''.xml'' @ post)"
    using ne s by auto
next
  assume "ds \<noteq> [] \<and> list_all is_digit ds \<and> (\<exists>post. s = ''slide'' @ ds @ ''.xml'' @ post)"
  then obtain post where ne: "ds \<noteq> []" and d: "list_all is_digit ds"
    and s: "s = ''slide'' @ ds @ ''.xml'' @ post"
    by auto
  from digits_then_dot [OF d, of "''xml'' @ post"] ne s
  show "slide_digits_here s = Some ds"
    by (simp add: slide_digits_here_def startsWith_def)
qed

lemma slide_path_here_iff:
  "slide_path_here s =
     (\<exists>ds post. ds \<noteq> [] \<and> list_all is_digit ds \<and> s = ''ppt/slides/slide'' @ ds @ ''.xml'' @ post)"
proof
  assume a: "slide_path_here s"
  then obtain r where s: "s = ''ppt/slides/'' @ r"
    by (auto simp: slide_path_here_def startsWith_iff)
  with a obtain ds where "slide_digits_here r = Some ds"
    by (auto simp: slide_path_here_def)
  then show "\<exists>ds post. ds \<noteq> [] \<and> list_all is_digit ds \<and> s = ''ppt/slides/slide'' @ ds @ ''.xml'' @ post"
    using s by (auto simp: slide_digits_here_iff)
next
  assume "\<exists>ds post. ds \<noteq> [] \<and> list_all is_digit ds \<and> s = ''ppt/slides/slide'' @ ds @ ''.xml'' @ post"
  then obtain ds post where ne: "ds \<noteq> []" and d: "list_all is_digit ds"
    and s: "s = ''ppt/slides/slide'' @ ds @ ''.xml'' @ post"
    by auto
  have "slide_digits_here (''slide'' @ ds @ ''.xml'' @ post) = Some ds"
    using ne d by (subst slide_digits_here_iff) blast
  with s show "slide_path_here s"
    by (simp add: slide_path_here_def startsWith_def)
qed

text \<open>
  The matcher for \<^verbatim>\<open>/ppt\/slides\/slide[0-9]+\.xml/\<close> accepts exactly the strings that
  contain \<^verbatim>\<open>ppt/slides/slide\<close>, one or more digits and \<^verbatim>\<open>.xml\<close> in a row.
\<close>

theorem matches_slide_path_language:
  "matches_slide_path f =
     (\<exists>pre ds post. ds \<noteq> [] \<and> list_all is_digit ds \<and>
        f = pre @ ''ppt/slides/slide'' @ ds @ ''.xml'' @ post)"
proof (induction f)
  case Nil
  show ?case by simp
next
  case (Cons ch f)
  show ?case
  proof
    assume "matches_slide_path (ch # f)"
    then consider "slide_path_here (ch # f)" | "matches_slide_path f"
      by auto
    then show "\<exists>pre ds post. ds \<noteq> [] \<and> list_all is_digit ds \<and>
        ch # f = pre @ ''ppt/slides/slide'' @ ds @ ''.xml'' @ post"
    proof cases
      case 1
      then obtain ds post where "ds \<noteq> []" "list_all is_digit ds"
        "ch # f = [] @ ''ppt/slides/slide'' @ ds @ ''.xml'' @ post"
        by (auto simp: slide_path_here_iff)
      then show ?thesis by blast
    next
      case 2
      with Cons.IH obtain pre ds post where "ds \<noteq> []" "list_all is_digit ds"
        "f = pre @ ''ppt/slides/slide'' @ ds @ ''.xml'' @ post"
        by auto
      then have "ds \<noteq> [] \<and> list_all is_digit ds \<and>
        ch # f = (ch # pre) @ ''ppt/slides/slide'' @ ds @ ''.xml'' @ post"
        by simp
      then show ?thesis by blast
    qed
  next
    assume "\<exists>pre ds post. ds \<noteq> [] \<and> list_all is_digit ds \<and>
        ch # f = pre @ ''ppt/slides/slide'' @ ds @ ''.xml'' @ post"
    then obtain pre ds post where ne: "ds \<noteq> []" and d: "list_all is_digit ds"
      and f: "ch # f = pre @ ''ppt/slides/slide'' @ ds @ ''.xml'' @ post"
      by auto
    show "matches_slide_path (ch # f)"
    proof (cases pre)
      case Nil
      with ne d f have "slide_path_here (ch # f)"
        by (subst slide_path_here_iff) auto
      then show ?thesis by simp
    next
      case (Cons a pre')
      with f have "f = pre' @ ''ppt/slides/slide'' @ ds @ ''.xml'' @ post"
        by simp
      with ne d Cons.IH have "matches_slide_path f"
        by blast
      then show ?thesis by simp
    qed
  qed
qed

theorem matches_slide_path_language_witness:
  "matches_slide_path ''x/ppt/slides/slide12.xml.bak'' \<and>
   (\<exists>pre ds post. ds \<noteq> [] \<and> list_all is_digit ds \<and>
      ''x/ppt/slides/slide12.xml.bak'' = pre @ ''ppt/slides/slide'' @ ds @ ''.xml'' @ post)"
proof -
  have "matches_slide_path ''x/ppt/slides/slide12.xml.bak''"
    by (simp add: string_defs)
  then show ?thesis
    using matches_slide_path_language [of "''x/ppt/slides/slide12.xml.bak''"] by simp
qed

text \<open>
  The matcher for \<^verbatim>\<open>/slide(\d+)\.xml/\<close> finds a match exactly in the strings that contain
  \<^verbatim>\<open>slide\<close>, one or more digits and \<^verbatim>\<open>.xml\<close> in a row.
\<close>

theorem match_slide_number_language:
  "(\<exists>ds. match_slide_number f = Some ds) =
     (\<exists>pre ds post. ds \<noteq> [] \<and> list_all is_digit ds \<and>
        f = pre @ ''slide'' @ ds @ ''.xml'' @ post)"
proof (induction f)
  case Nil
  show ?case by simp
next
  case (Cons ch f)
  show ?case
  proof
    assume "\<exists>ds. match_slide_number (ch # f) = Some ds"
    then obtain ds where m: "match_slide_number (ch # f) = Some ds" ..
    show "\<exists>pre ds post. ds \<noteq> [] \<and> list_all is_digit ds \<and>
        ch # f = pre @ ''slide'' @ ds @ ''.xml'' @ post"
    proof (cases "slide_digits_here (ch # f)")
      case (Some ds')
      then obtain post where "ds' \<noteq> []" "list_all is_digit ds'"
        "ch # f = [] @ ''slide'' @ ds' @ ''.xml'' @ post"
        by (auto simp: slide_digits_here_iff)
      then show ?thesis by blast
    next
      case None
      with m have "match_slide_number f = Some ds"
        by simp
      with Cons.IH obtain pre ds' post where "ds' \<noteq> []" "list_all is_digit ds'"
        "f = pre @ ''slide'' @ ds' @ ''.xml'' @ post"
        by blast
      then have "ds' \<noteq> [] \<and> list_all is_digit ds' \<and>
        ch # f = (ch # pre) @ ''slide'' @ ds' @ ''.xml'' @ post"
        by simp
      then show ?thesis by blast
    qed
  next
    assume "\<exists>pre ds post. ds \<noteq> [] \<and> list_all is_digit ds \<and>
        ch # f = pre @ ''slide'' @ ds @ ''.xml'' @ post"
    then obtain pre ds post where ne: "ds \<noteq> []" and d: "list_all is_digit ds"
      and f: "ch # f = pre @ ''slide'' @ ds @ ''.xml'' @ post"
      by auto
    show "\<exists>ds. match_slide_number (ch # f) = Some ds"
    proof (cases pre)
      case Nil
      with ne d f have "slide_digits_here (ch # f) = Some ds"
        by (subst slide_digits_here_iff) auto
      then show ?thesis by simp
    next
      case (Cons a pre')
      with f have "f = pre' @ ''slide'' @ ds @ ''.xml'' @ post"
        by simp
      with ne d Cons.IH obtain ds' where "match_slide_number f = Some ds'"
        by blast
      then show ?thesis
        by (cases "slide_digits_here (ch # f)") simp_all
    qed
  qed
qed

theorem match_slide_number_language_witness:
  "match_slide_number ''ppt/slides/slide12.xml'' = Some ''12'' \<and>
   (\<exists>pre ds post. ds \<noteq> [] \<and> list_all is_digit ds \<and>
      ''ppt/slides/slide12.xml'' = pre @ ''slide'' @ ds @ ''.xml'' @ post)"
proof -
  have m: "match_slide_number ''ppt/slides/slide12.xml'' = Some ''12''"
    by (simp add: string_defs)
  then have "\<exists>ds. match_slide_number ''ppt/slides/slide12.xml'' = Some ds"
    by blast
  then show ?thesis
    using m match_slide_number_language [of "''ppt/slides/slide12.xml''"] by simp
qed

subsection \<open>Recognition contexts are scoped to one call that settles\<close>

text \<open>
  A call of \<^verbatim>\<open>processImage\<close> whose recognition attempt settles, with a text or with a
  rejected promise. The call creates a worker of its own, one that was not alive before,
  runs the recognition on it and terminates it before returning; when \<^verbatim>\<open>createWorker\<close>
  rejects there is nothing to terminate. The world after the call is the world before it
  with the counter of workers advanced by one and the creation, the recognition and the
  termination of that worker added to the log: the live workers are unchanged, and the next
  call gets another worker.
\<close>

theorem settled_call_releases_its_worker:
  assumes "world_ok w" and "settles (recognition c img)"
  shows "snd (processImage c w img) =
           (if recognition c img = AcquireRejected then w
            else w\<lparr>created := Suc (created w),
                   events := events w @
                     [Created (created w), Recognizing (created w) img,
                      Terminated (created w)]\<rparr>) \<and>
         created w \<notin> set (live w) \<and>
         world_ok (snd (processImage c w img)) \<and>
         (recognition c img \<noteq> AcquireRejected \<longrightarrow>
            created (snd (processImage c w img)) \<notin> set (created w # live w))"
proof -
  from assms(1) have fresh: "created w \<notin> set (live w)"
    by (auto simp: world_ok_def list_all_iff)
  then have rm: "removeAll (created w) (live w) = live w"
    by simp
  from assms(1) have ok: "list_all (\<lambda>k. k < Suc (created w)) (live w)"
    by (auto simp: world_ok_def list_all_iff)
  from assms(1) have next_fresh: "Suc (created w) \<notin> set (live w)"
    by (auto simp: world_ok_def list_all_iff)
  show ?thesis
    using fresh rm ok next_fresh assms
    by (cases "recognition c img")
       (simp_all add: processImage_def createWorker_def recognize_def terminate_def world_ok_def)
qed

theorem settled_call_releases_its_worker_witness:
  "world_ok world1 \<and> settles (recognition calm ''png-sign'') \<and>
   settles (recognition calm ''png-noise'') \<and>
   processImage calm world1 ''png-sign'' =
     (Inr (Some ''EXIT''),
      \<lparr>created = 4, live = [1],
       events = [Created 1, Created 3, Recognizing 3 ''png-sign'', Terminated 3]\<rparr>) \<and>
   snd (processImage calm world1 ''png-noise'') =
     \<lparr>created = 4, live = [1],
      events = [Created 1, Created 3, Recognizing 3 ''png-noise'', Terminated 3]\<rparr> \<and>
   settles (recognition (calm\<lparr>recognition := \<lambda>img. AcquireRejected\<rparr>) ''png-sign'') \<and>
   snd (processImage (calm\<lparr>recognition := \<lambda>img. AcquireRejected\<rparr>) world1 ''png-sign'') =
     world1"
proof -
  have ok: "world_ok world1"
    by (simp add: world_ok_def world1_def)
  have s1: "settles (recognition calm ''png-sign'')"
    and s2: "settles (recognition calm ''png-noise'')"
    by (simp_all add: calm_simps)
  have r: "fst (processImage calm world1 ''png-sign'') = Inr (Some ''EXIT'')"
    by (simp add: processImage_fst calm_simps)
  have s3: "settles (recognition (calm\<lparr>recognition := \<lambda>img. AcquireRejected\<rparr>) ''png-sign'')"
    by simp
  have "snd (processImage (calm\<lparr>recognition := \<lambda>img. AcquireRejected\<rparr>) world1 ''png-sign'') =
          world1"
    using settled_call_releases_its_worker [OF ok s3] by simp
  then show ?thesis
    using ok s1 s2 s3 r settled_call_releases_its_worker [OF ok s1]
      settled_call_releases_its_worker [OF ok s2]
    by (simp add: calm_simps world1_def prod_eq_iff)
qed

subsection \<open>A recognition that is rejected\<close>

text \<open>
  When the image of a picture is found and its recognition ends with a rejected promise
  (\<^verbatim>\<open>createWorker\<close> or \<^verbatim>\<open>recognize\<close> rejects, and nothing is thrown outside the \<^verbatim>\<open>try\<close>
  block), \<^verbatim>\<open>processImage\<close> catches the error and returns \<^verbatim>\<open>null\<close>. The picture adds nothing
  to the html, and the result of rendering the slide is the one the slide has without the
  picture.
\<close>

theorem caught_rejection_is_absorbed:
  assumes "embed_id pic = Some rId" and "rId \<noteq> []"
    and "getImageData c s f rId = Some img"
    and "recognition c img = RecognizeRejected \<or> recognition c img = AcquireRejected"
  shows "fst (processImage c w img) = Inr None \<and>
         fst (convertPicture c s f pic (html, w)) = Inr html \<and>
         fst (render_tree c s w f shapes (before @ pic # after)) =
           fst (render_tree c s w f shapes (before @ after))"
proof -
  have none: "fst (processImage c w0 img) = Inr None" for w0
    using assms(4) by (auto simp: processImage_fst)
  have step: "fst (convertPicture c s f pic (h, w0)) = Inr h" for h w0
    using assms(1,2,3) none [of w0]
    by (auto simp: convertPicture_def split: prod.splits option.splits sum.splits)
  show ?thesis
    using none step render_tree_skip [of c s f pic w shapes before after] by simp
qed

theorem caught_rejection_is_absorbed_witness:
  \<open>embed_id (picture_node ''rId2'') = Some ''rId2'' \<and> ''rId2'' \<noteq> [] \<and>
   getImageData calm album ''ppt/slides/slide1.xml'' ''rId2'' = Some ''png-noise'' \<and>
   recognition calm ''png-noise'' = RecognizeRejected \<and>
   fst (processImage calm world0 ''png-noise'') = Inr None \<and>
   fst (convertPicture calm album ''ppt/slides/slide1.xml'' (picture_node ''rId2'')
          (''<p>'', world0)) = Inr ''<p>'' \<and>
   fst (render_tree calm album world0 ''ppt/slides/slide1.xml'' []
          [picture_node ''rId1'', picture_node ''rId2'']) =
     Inr (''<div class="slide"><div class="slide-content">'' @ picture_html ''EXIT'' @
          ''</div></div>'')\<close>
proof -
  have h1: "embed_id (picture_node ''rId2'') = Some ''rId2''"
    by (rule album_embed)
  have h2: "''rId2'' \<noteq> []"
    by simp
  have h3: "getImageData calm album ''ppt/slides/slide1.xml'' ''rId2'' = Some ''png-noise''"
    by (simp add: getImageData_calm album_images)
  have fails: "recognition calm ''png-noise'' = RecognizeRejected"
    by (simp add: calm_simps)
  then have h4: "recognition calm ''png-noise'' = RecognizeRejected \<or>
                 recognition calm ''png-noise'' = AcquireRejected"
    by simp
  have render: \<open>fst (render_tree calm album world0 ''ppt/slides/slide1.xml'' []
      [picture_node ''rId1'']) =
     Inr (''<div class="slide"><div class="slide-content">'' @ picture_html ''EXIT'' @
          ''</div></div>'')\<close>
    by (simp add: render_tree_fst convertPicture_def album_embed album_images getImageData_calm
        processImage_def createWorker_def calm_simps)
  show ?thesis
    using h1 h2 h3 fails render
      caught_rejection_is_absorbed
        [OF h1 h2 h3 h4, of world0 "''<p>''" "[]" "[picture_node ''rId1'']" "[]"]
    by simp
qed

subsection \<open>The slide containers of a document\<close>

lemma shapes_loop_prints:
  assumes "objectToString c = Some str"
  shows "\<exists>y. shapes_loop c html shapes = Inr (html @ y)"
proof (induction shapes arbitrary: html)
  case Nil
  show ?case by simp
next
  case (Cons shape shapes)
  show ?case
  proof (cases "txBody_of shape")
    case None
    with Cons.IH show ?thesis
      by simp
  next
    case (Some txBody)
    let ?h = \<open>html @ ''<div class="shape">'' @
      concat (map (text_paragraph (printed_text str)) (elements txBody ''a:p'')) @ ''</div>''\<close>
    from Cons.IH [of ?h] obtain y where "shapes_loop c ?h shapes = Inr (?h @ y)" ..
    then have \<open>shapes_loop c html (shape # shapes) =
        Inr (html @ (''<div class="shape">'' @
          concat (map (text_paragraph (printed_text str)) (elements txBody ''a:p'')) @ ''</div>'' @ y))\<close>
      using Some by (simp add: paragraphs_loop_printed [OF assms])
    then show ?thesis ..
  qed
qed

lemma convertPicture_extends:
  assumes "\<forall>img. settles (recognition c img)"
  shows "\<exists>y. fst (convertPicture c s f pic (h, w)) = Inr (h @ y)"
proof -
  have "fst (processImage c w img) \<noteq> Inl e" for img e
    using assms [rule_format, of img]
    by (cases "recognition c img") (simp_all add: processImage_fst)
  then show ?thesis
    by (simp add: convertPicture_def split: option.splits prod.splits sum.splits)
      (metis fst_conv)
qed

lemma pictures_loop_extends:
  assumes "\<forall>img. settles (recognition c img)"
  shows "\<exists>y. fst (pictures_loop c s f pics (h, w)) = Inr (h @ y)"
proof (induction pics arbitrary: h w)
  case Nil
  show ?case by simp
next
  case (Cons pic pics)
  obtain r1 w1 where a: "convertPicture c s f pic (h, w) = (r1, w1)"
    by (cases "convertPicture c s f pic (h, w)")
  from convertPicture_extends [OF assms, of s f pic h w] a obtain y1 where r1: "r1 = Inr (h @ y1)"
    by auto
  from Cons.IH [of "h @ y1" w1] obtain y2 where
    "fst (pictures_loop c s f pics (h @ y1, w1)) = Inr ((h @ y1) @ y2)" ..
  then have "fst (pictures_loop c s f (pic # pics) (h, w)) = Inr (h @ (y1 @ y2))"
    using a r1 by simp
  then show ?case ..
qed

lemma convertSlide_container:
  assumes "objectToString c = Some str" and "\<forall>img. settles (recognition c img)"
  shows "case slide_tree slide of
           None \<Rightarrow> fst (convertSlideToHTML c s w slide) = Inr []
         | Some spTree \<Rightarrow> (\<exists>inner. fst (convertSlideToHTML c s w slide) = Inr (container inner))"
proof (cases "slide_tree slide")
  case None
  then show ?thesis by (simp add: convertSlideToHTML_def)
next
  case (Some spTree)
  let ?open = \<open>''<div class="slide"><div class="slide-content">''\<close>
  from shapes_loop_prints [OF assms(1), where html = ?open and shapes = "elements spTree ''p:sp''"]
  obtain y1 where a: "shapes_loop c ?open (elements spTree ''p:sp'') = Inr (?open @ y1)" ..
  from pictures_loop_extends [OF assms(2)]
  obtain y2 where b: "fst (pictures_loop c s (slide_file slide) (elements spTree ''p:pic'')
      (?open @ y1, w)) = Inr ((?open @ y1) @ y2)" ..
  have "fst (render_tree c s w (slide_file slide) (elements spTree ''p:sp'')
               (elements spTree ''p:pic'')) = Inr (((?open @ y1) @ y2) @ ''</div></div>'')"
    by (simp only: render_tree_fst a b sum.case)
  then have "fst (convertSlideToHTML c s w slide) = Inr (container (y1 @ y2))"
    using Some by (simp add: convertSlideToHTML_def container_def)
  with Some show ?thesis
    by auto
qed

lemma slides_loop_containers:
  assumes "objectToString c = Some str" and "\<forall>img. settles (recognition c img)"
  shows "\<exists>inners. fst (slides_loop c s sl (acc, w)) = Inr (acc @ concat (map container inners)) \<and>
                   length inners = length (filter has_tree sl)"
proof (induction sl arbitrary: acc w)
  case Nil
  have "fst (slides_loop c s [] (acc, w)) = Inr (acc @ concat (map container [])) \<and>
        length ([] :: string list) = length (filter has_tree [])"
    by simp
  then show ?case by blast
next
  case (Cons slide sl)
  obtain r w1 where a: "convertSlideToHTML c s w slide = (r, w1)"
    by (cases "convertSlideToHTML c s w slide")
  show ?case
  proof (cases "slide_tree slide")
    case None
    with convertSlide_container [OF assms, where slide = slide and s = s and w = w] a
    have r: "r = Inr []"
      by simp
    from Cons.IH [of acc w1] obtain inners where
      i: "fst (slides_loop c s sl (acc, w1)) = Inr (acc @ concat (map container inners))"
         "length inners = length (filter has_tree sl)"
      by blast
    have "fst (slides_loop c s (slide # sl) (acc, w)) =
            Inr (acc @ concat (map container inners)) \<and>
          length inners = length (filter has_tree (slide # sl))"
      using a r i None by (simp add: has_tree_def)
    then show ?thesis by blast
  next
    case (Some spTree)
    with convertSlide_container [OF assms, where slide = slide and s = s and w = w] a
    obtain inner where r: "r = Inr (container inner)"
      by auto
    from Cons.IH [of "acc @ container inner" w1] obtain inners where
      i: "fst (slides_loop c s sl (acc @ container inner, w1)) =
            Inr ((acc @ container inner) @ concat (map container inners))"
         "length inners = length (filter has_tree sl)"
      by blast
    have "fst (slides_loop c s (slide # sl) (acc, w)) =
            Inr (acc @ concat (map container (inner # inners))) \<and>
          length (inner # inners) = length (filter has_tree (slide # sl))"
      using a r i Some by (simp add: has_tree_def)
    then show ?thesis by blast
  qed
qed

lemma parse_loop_map_filter:
  "parse_loop c z names acc = acc @ List.map_filter (parse_one c z) names"
  by (induction names arbitrary: acc)
     (simp_all add: parse_one_def split: option.splits)

lemma filter_map_filter:
  "length (filter has_tree (List.map_filter (parse_one c z) names)) =
   length (filter (part_has_tree c z) names)"
  by (induction names)
     (simp_all add: part_has_tree_def split: option.splits)

lemma length_filter_sort:
  "length (filter P (sort xs)) = length (filter P xs)"
  by (simp add: filter_sort)

text \<open>
  When the archive loads, element objects print and every recognition attempt settles,
  \<^verbatim>\<open>toHTML\<close> returns a document, and the body of the document is a sequence of slide
  containers, one for each slide part (an entry named \<^verbatim>\<open>ppt/slides/slide...xml\<close>) that parses
  and has a shape tree. Relationship tables and media have no part in this.
\<close>

theorem one_container_per_rendered_part:
  assumes "loadAsync c (pptxBuffer s) = Some z" and "objectToString c = Some str"
    and "\<forall>img. settles (recognition c img)"
  shows "\<exists>inners.
           fst (toHTML c opts w s) = Inr (document generateStyles (concat (map container inners))) \<and>
           length inners = length (filter (part_has_tree c z) (filter is_slide_name (zip_names z)))"
proof -
  let ?names = "sort (filter is_slide_name (zip_names z))"
  let ?sl = "parse_loop c z ?names []"
  obtain r w1 where a: "slides_loop c (s\<lparr>zipf := Some z\<rparr>) ?sl ([], w) = (r, w1)"
    by (cases "slides_loop c (s\<lparr>zipf := Some z\<rparr>) ?sl ([], w)")
  from slides_loop_containers
    [OF assms(2,3), where s = "s\<lparr>zipf := Some z\<rparr>" and sl = ?sl and acc = "[]" and w = w] a
  obtain inners where
    r: "r = Inr (concat (map container inners))" and
    n: "length inners = length (filter has_tree ?sl)"
    by auto
  have "length (filter has_tree ?sl) =
        length (filter (part_has_tree c z) (filter is_slide_name (zip_names z)))"
    by (simp add: parse_loop_map_filter filter_map_filter length_filter_sort)
  with n have "length inners =
        length (filter (part_has_tree c z) (filter is_slide_name (zip_names z)))"
    by simp
  moreover have "fst (toHTML c opts w s) =
        Inr (document generateStyles (concat (map container inners)))"
    using assms(1) a r by (simp add: toHTML_fst generateHTML_def)
  ultimately show ?thesis by blast
qed

theorem one_container_per_rendered_part_witness:
  "loadAsync calm (pptxBuffer (PPTXInHTMLOut ''sparse'')) = Some sparse_zip \<and>
   objectToString calm = Some ''[object Object]'' \<and>
   (\<forall>img. settles (recognition calm img)) \<and>
   length (filter is_slide_name (zip_names sparse_zip)) = 3 \<and>
   (\<exists>inners.
      fst (toHTML calm None world0 (PPTXInHTMLOut ''sparse'')) =
        Inr (document generateStyles (concat (map container inners))) \<and>
      length inners = 1)"
proof -
  have h1: "loadAsync calm (pptxBuffer (PPTXInHTMLOut ''sparse'')) = Some sparse_zip"
    by (simp add: calm_simps demo_simps PPTXInHTMLOut_def)
  have h2: "objectToString calm = Some ''[object Object]''"
    by (simp add: calm_simps demo_simps)
  have h3: "\<forall>img. settles (recognition calm img)"
    by (simp add: calm_simps)
  have names: "filter is_slide_name (zip_names sparse_zip) =
      [''ppt/slides/slide1.xml'', ''ppt/slides/slide2.xml'', ''ppt/slides/slide3.xml'']"
    by (simp add: is_slide_name_def zip_names_def sparse_zip_def string_defs)
  have parts:
    "part_has_tree calm sparse_zip ''ppt/slides/slide1.xml''"
    "\<not> part_has_tree calm sparse_zip ''ppt/slides/slide2.xml''"
    "\<not> part_has_tree calm sparse_zip ''ppt/slides/slide3.xml''"
    by (simp_all add: part_has_tree_def parse_one_def has_tree_def zip_file_def sparse_zip_def
        calm_simps demo_simps demo_markup_def string_defs slide_tree_def slide_doc_def
        tree_node_def spTree_of_def)
  show ?thesis
    using h1 h2 h3 one_container_per_rendered_part [OF h1 h2 h3, of None world0]
    by (simp add: names parts)
qed

subsection \<open>Workers across a conversion\<close>

lemma same_workers_refl: "world_ok w \<Longrightarrow> same_workers w w"
  by (simp add: same_workers_def)

lemma same_workers_trans:
  "same_workers w w1 \<Longrightarrow> same_workers w1 w2 \<Longrightarrow> same_workers w w2"
  by (simp add: same_workers_def)

lemma processImage_workers:
  assumes "world_ok w" and "settles (recognition c img)"
  shows "same_workers w (snd (processImage c w img))"
proof -
  from assms(1) have "created w \<notin> set (live w)"
    by (auto simp: world_ok_def list_all_iff)
  then have rm: "removeAll (created w) (live w) = live w"
    by simp
  from assms(1) have ok: "list_all (\<lambda>k. k < Suc (created w)) (live w)"
    by (auto simp: world_ok_def list_all_iff)
  show ?thesis
    using rm ok assms
    by (cases "recognition c img")
       (simp_all add: same_workers_def processImage_def createWorker_def recognize_def
          terminate_def world_ok_def)
qed

lemma convertPicture_workers:
  assumes "world_ok w" and "\<forall>img. settles (recognition c img)"
  shows "same_workers w (snd (convertPicture c s f pic (h, w)))"
proof -
  have "same_workers w (snd (processImage c w img))" for img
    using processImage_workers [OF assms(1)] assms(2) by simp
  then show ?thesis
    using same_workers_refl [OF assms(1)]
    by (auto simp: convertPicture_def split: option.splits prod.splits sum.splits)
      (metis snd_conv)+
qed

lemma pictures_loop_workers:
  assumes "\<forall>img. settles (recognition c img)"
  shows "world_ok w \<Longrightarrow> same_workers w (snd (pictures_loop c s f pics (h, w)))"
proof (induction pics arbitrary: h w)
  case Nil
  then show ?case by (simp add: same_workers_refl)
next
  case (Cons pic pics)
  obtain r1 w1 where a: "convertPicture c s f pic (h, w) = (r1, w1)"
    by (cases "convertPicture c s f pic (h, w)")
  with convertPicture_workers [OF Cons.prems assms, of s f pic h] have 1: "same_workers w w1"
    by simp
  then have ok: "world_ok w1"
    by (simp add: same_workers_def)
  show ?case
  proof (cases r1)
    case (Inl e)
    with a 1 show ?thesis by simp
  next
    case (Inr h1)
    with a 1 Cons.IH [OF ok, of h1] show ?thesis
      by (auto intro: same_workers_trans)
  qed
qed

lemma convertSlide_workers:
  assumes "world_ok w" and "\<forall>img. settles (recognition c img)"
  shows "same_workers w (snd (convertSlideToHTML c s w slide))"
proof (cases "slide_tree slide")
  case None
  then show ?thesis
    using same_workers_refl [OF assms(1)] by (simp add: convertSlideToHTML_def)
next
  case (Some spTree)
  have "same_workers w (snd (render_tree c s w f shapes pics))" for f shapes pics
  proof (cases \<open>shapes_loop c ''<div class="slide"><div class="slide-content">'' shapes\<close>)
    case (Inl e)
    then show ?thesis
      using same_workers_refl [OF assms(1)] by (simp add: render_tree_def)
  next
    case (Inr html)
    obtain r w1 where a: "pictures_loop c s f pics (html, w) = (r, w1)"
      by (cases "pictures_loop c s f pics (html, w)")
    with pictures_loop_workers [OF assms(2) assms(1), of s f pics html]
    have "same_workers w w1"
      by simp
    with Inr a show ?thesis
      by (cases r) (simp_all add: render_tree_def)
  qed
  with Some show ?thesis
    by (simp add: convertSlideToHTML_def)
qed

lemma slides_loop_workers:
  assumes "\<forall>img. settles (recognition c img)"
  shows "world_ok w \<Longrightarrow> same_workers w (snd (slides_loop c s sl (acc, w)))"
proof (induction sl arbitrary: acc w)
  case Nil
  then show ?case by (simp add: same_workers_refl)
next
  case (Cons slide sl)
  obtain r w1 where a: "convertSlideToHTML c s w slide = (r, w1)"
    by (cases "convertSlideToHTML c s w slide")
  with convertSlide_workers [OF Cons.prems assms, of s slide] have 1: "same_workers w w1"
    by simp
  then have ok: "world_ok w1"
    by (simp add: same_workers_def)
  show ?case
  proof (cases r)
    case (Inl e)
    with a 1 show ?thesis by simp
  next
    case (Inr html)
    with a 1 Cons.IH [OF ok, of "acc @ html"] show ?thesis
      by (auto intro: same_workers_trans)
  qed
qed

text \<open>
  A whole conversion in which every recognition attempt settles, whether it returns a
  document or an error, leaves alive exactly the workers that were alive before it: every
  worker it created has been terminated.
\<close>

theorem toHTML_releases_workers:
  assumes "world_ok w" and "\<forall>img. settles (recognition c img)"
  shows "live (fst (snd (toHTML c opts w s))) = live w \<and>
         world_ok (fst (snd (toHTML c opts w s)))"
proof -
  have gen: "same_workers w (snd (generateHTML c s' w sl))" for s' sl
    using slides_loop_workers [OF assms(2) assms(1), of s' sl "[]"]
    by (auto simp: generateHTML_def split: prod.splits sum.splits)
  have "same_workers w (fst (snd (toHTML c opts w s)))"
    using gen same_workers_refl [OF assms(1)]
    by (auto simp: toHTML_def split: sum.splits prod.splits) (metis snd_conv)+
  then show ?thesis
    by (simp add: same_workers_def)
qed

theorem toHTML_releases_workers_witness:
  "world_ok world1 \<and> live world1 = [1] \<and> (\<forall>img. settles (recognition calm img)) \<and>
   live (fst (snd (toHTML calm None world1 (PPTXInHTMLOut ''album'')))) = [1] \<and>
   world_ok (fst (snd (toHTML calm None world1 (PPTXInHTMLOut ''album''))))"
proof -
  have ok: "world_ok world1"
    by (simp add: world_ok_def world1_def)
  have l: "live world1 = [1]"
    by (simp add: world1_def)
  have st: "\<forall>img. settles (recognition calm img)"
    by (simp add: calm_simps)
  show ?thesis
    using ok l st toHTML_releases_workers [OF ok st, of None "PPTXInHTMLOut ''album''"]
    by simp
qed

end
